theory Spec2Isabelle
  imports Complex_Main "HOL-Library.AList"
begin

section \<open>Python strings\<close>

text \<open>
  A Python \<open>str\<close> is modelled as a \<open>string\<close> (a list of 8-bit characters), so the texts
  of the model are ASCII texts: \<open>upper\<close> and \<open>lower\<close> change the 26 letters only, and
  white space is the ASCII white space of \<open>str.isspace\<close>, \<open>str.strip\<close> and the regular
  expression class \<open>\s\<close>. Python floats are modelled as reals.
\<close>

definition ascii_lowercase :: string where
  "ascii_lowercase = ''abcdefghijklmnopqrstuvwxyz''"

definition ascii_uppercase :: string where
  "ascii_uppercase = ''ABCDEFGHIJKLMNOPQRSTUVWXYZ''"

definition upper_char :: "char \<Rightarrow> char" where
  "upper_char c = (case map_of (zip ascii_lowercase ascii_uppercase) c of Some d \<Rightarrow> d | None \<Rightarrow> c)"

definition lower_char :: "char \<Rightarrow> char" where
  "lower_char c = (case map_of (zip ascii_uppercase ascii_lowercase) c of Some d \<Rightarrow> d | None \<Rightarrow> c)"

definition upper :: "string \<Rightarrow> string" where
  "upper s = map upper_char s"

definition lower :: "string \<Rightarrow> string" where
  "lower s = map lower_char s"

definition whitespace :: string where
  "whitespace = [CHR '' '', CHR 0x09, CHR 0x0A, CHR 0x0B, CHR 0x0C, CHR 0x0D,
                 CHR 0x1C, CHR 0x1D, CHR 0x1E, CHR 0x1F]"

definition is_space :: "char \<Rightarrow> bool" where
  "is_space c = (c \<in> set whitespace)"

text \<open>\<open>s.strip()\<close>\<close>

definition strip :: "string \<Rightarrow> string" where
  "strip s = rev (dropWhile is_space (rev (dropWhile is_space s)))"

text \<open>\<open>s[i:j]\<close> for \<open>0 \<le> i\<close> and \<open>0 \<le> j\<close>\<close>

definition slice :: "string \<Rightarrow> nat \<Rightarrow> nat \<Rightarrow> string" where
  "slice s i j = take (j - i) (drop i s)"

text \<open>\<open>s.startswith(p)\<close>\<close>

fun startswith :: "string \<Rightarrow> string \<Rightarrow> bool" where
  "startswith s [] = True"
| "startswith [] (p # ps) = False"
| "startswith (c # cs) (p # ps) = (c = p \<and> startswith cs ps)"

text \<open>\<open>k in s\<close>\<close>

fun py_in :: "string \<Rightarrow> string \<Rightarrow> bool" where
  "py_in k [] = (k = [])"
| "py_in k (c # cs) = (startswith (c # cs) k \<or> py_in k cs)"

text \<open>\<open>s.find(k)\<close>, with \<open>None\<close> for \<open>-1\<close>\<close>

fun find_from :: "nat \<Rightarrow> string \<Rightarrow> string \<Rightarrow> nat option" where
  "find_from pos [] k = (if k = [] then Some pos else None)"
| "find_from pos (c # cs) k = (if startswith (c # cs) k then Some pos else find_from (Suc pos) cs k)"

definition py_find :: "string \<Rightarrow> string \<Rightarrow> nat option" where
  "py_find s k = find_from 0 s k"

text \<open>\<open>s.find(k, start)\<close>\<close>

definition py_find_at :: "string \<Rightarrow> string \<Rightarrow> nat \<Rightarrow> nat option" where
  "py_find_at s k start = (if length s < start then None else find_from start (drop start s) k)"

text \<open>\<open>re.sub(r'\s+', ' ', s)\<close>: every run of white space becomes one blank.\<close>

fun collapse_run :: "bool \<Rightarrow> string \<Rightarrow> string" where
  "collapse_run in_run [] = []"
| "collapse_run in_run (c # cs) =
     (if is_space c then (if in_run then collapse_run True cs else CHR '' '' # collapse_run True cs)
      else c # collapse_run False cs)"

definition collapse_whitespace :: "string \<Rightarrow> string" where
  "collapse_whitespace s = collapse_run False s"

text \<open>\<open>s.split()\<close>: the maximal runs of characters that are not white space.\<close>

fun split_run :: "string \<Rightarrow> string \<Rightarrow> string list" where
  "split_run word [] = (if word = [] then [] else [word])"
| "split_run word (c # cs) =
     (if is_space c then (if word = [] then split_run [] cs else word # split_run [] cs)
      else split_run (word @ [c]) cs)"

definition py_split :: "string \<Rightarrow> string list" where
  "py_split s = split_run [] s"

section \<open>Letter-to-index mapping and validation (\<open>v2_answer_parser.py\<close>)\<close>

text \<open>
  \<open>difflib.SequenceMatcher(None, a, b).ratio()\<close> belongs to the Python library, not to the
  repository; the functions below take it as their first argument \<open>ratio\<close>.
\<close>

type_synonym seq_ratio = "string \<Rightarrow> string \<Rightarrow> real"

text \<open>\<open>V2AnswerParser.aws_keywords\<close> (a list)\<close>

definition aws_keywords :: "string list" where
  "aws_keywords =
    [''S3'', ''EC2'', ''VPC'', ''RDS'', ''Lambda'', ''CloudWatch'', ''IAM'', ''EBS'', ''ELB'',
     ''Auto Scaling'', ''CloudFormation'', ''Route 53'', ''CloudFront'', ''SQS'', ''SNS'',
     ''DynamoDB'', ''Kinesis'', ''API Gateway'', ''ElastiCache'', ''ECS'', ''EKS'', ''KMS'',
     ''Systems Manager'', ''CloudTrail'', ''Config'', ''GuardDuty'', ''Macie'', ''Inspector'']"

text \<open>
  The entries of an issue list are the messages of the source, kept as constructors:
  \<open>Index {idx} exceeds option count {n}\<close>,
  \<open>Low similarity between extracted answer and selected options\<close>,
  \<open>Used fuzzy matching, confidence: {similarity}\<close> and \<open>No fuzzy match found\<close>.
\<close>

datatype mapping_issue =
    IndexExceeds nat nat
  | LowSimilarity
  | UsedFuzzyMatching real
  | NoFuzzyMatchFound

record answer_result =
  correct_answers :: "nat list"
  validation_confidence :: real
  mapping_issues :: "mapping_issue list"
  mapping_method :: string

text \<open>An option of a question is the pair \<open>[letter, text]\<close>.\<close>

type_synonym question_option = "string \<times> string"

text \<open>\<open>re.findall(r'[A-E]', s)\<close>\<close>

definition findall_A_E :: "string \<Rightarrow> string" where
  "findall_A_E s = filter (\<lambda>c. c \<in> set ''ABCDE'') s"

text \<open>The loop of \<open>extract_answer_letters\<close> that removes duplicates and keeps the order.\<close>

fun unique_loop :: "char set \<Rightarrow> string \<Rightarrow> string \<Rightarrow> string" where
  "unique_loop seen unique_letters [] = unique_letters"
| "unique_loop seen unique_letters (letter # letters) =
     (if letter \<notin> seen then unique_loop (insert letter seen) (unique_letters @ [letter]) letters
      else unique_loop seen unique_letters letters)"

definition extract_answer_letters :: "string \<Rightarrow> string" where
  "extract_answer_letters answer_text =
     (let letters = findall_A_E (upper answer_text)
      in if letters \<noteq> [] then unique_loop {} [] letters else [])"

text \<open>\<open>ord(letter.upper()) - ord('A')\<close>; the letters that reach it are \<open>A\<close> to \<open>E\<close>.\<close>

definition letter_index :: "char \<Rightarrow> nat" where
  "letter_index letter = of_char (upper_char letter) - of_char (CHR ''A'')"

text \<open>\<open>calculate_keyword_overlap\<close>\<close>

definition calculate_keyword_overlap :: "string \<Rightarrow> string \<Rightarrow> real" where
  "calculate_keyword_overlap text1 text2 =
     (let text1_lower = lower text1;
          text2_lower = lower text2;
          in_option = filter (\<lambda>keyword. py_in (lower keyword) text2_lower) aws_keywords;
          total_keywords = length in_option;
          overlapping_keywords =
            length (filter (\<lambda>keyword. py_in (lower keyword) text1_lower) in_option)
      in if total_keywords = 0 then 0 else real overlapping_keywords / real total_keywords)"

text \<open>\<open>calculate_text_similarity\<close>: the body of its loop, then the mean.\<close>

definition option_similarity :: "seq_ratio \<Rightarrow> string \<Rightarrow> string \<Rightarrow> real" where
  "option_similarity ratio raw_answer_lower option_text =
     (let option_lower = lower option_text;
          in_option = filter (\<lambda>keyword. py_in (lower keyword) option_lower) aws_keywords;
          total_keywords = length in_option;
          keyword_matches =
            length (filter (\<lambda>keyword. py_in (lower keyword) raw_answer_lower) in_option)
      in if total_keywords > 0 then real keyword_matches / real total_keywords
         else ratio raw_answer_lower option_lower)"

definition calculate_text_similarity :: "seq_ratio \<Rightarrow> string \<Rightarrow> string list \<Rightarrow> real" where
  "calculate_text_similarity ratio raw_answer selected_options =
     (if selected_options = [] then 0
      else sum_list (map (option_similarity ratio (lower raw_answer)) selected_options)
             / real (length selected_options))"

text \<open>\<open>validate_answer_mapping\<close>: the bounds loop over the indices, then the similarity.\<close>

fun check_index_bounds ::
  "nat \<Rightarrow> mapping_issue list \<times> real \<Rightarrow> nat list \<Rightarrow> mapping_issue list \<times> real" where
  "check_index_bounds n (issues, confidence) [] = (issues, confidence)"
| "check_index_bounds n (issues, confidence) (idx # indices) =
     (if idx \<ge> n
      then check_index_bounds n (issues @ [IndexExceeds idx n], confidence * (3 / 10)) indices
      else check_index_bounds n (issues, confidence) indices)"

record validation =
  v_confidence :: real
  v_issues :: "mapping_issue list"
  v_validation_method :: string

definition validate_answer_mapping ::
  "seq_ratio \<Rightarrow> nat list \<Rightarrow> question_option list \<Rightarrow> string \<Rightarrow> validation" where
  "validate_answer_mapping ratio indices options raw_answer =
     (let (issues, confidence) = check_index_bounds (length options) ([], 1) indices;
          valid_indices = filter (\<lambda>idx. idx < length options) indices;
          validation_method = (if indices \<noteq> [] then ''letter_mapping'' else ''failed_extraction'')
      in if valid_indices \<noteq> [] then
           (let selected_options = map (\<lambda>i. snd (options ! i)) valid_indices;
                similarity = calculate_text_similarity ratio raw_answer selected_options
            in \<lparr>v_confidence = confidence * similarity,
                v_issues = (if similarity < 1 / 2 then issues @ [LowSimilarity] else issues),
                v_validation_method = validation_method\<rparr>)
         else \<lparr>v_confidence = confidence, v_issues = issues,
               v_validation_method = validation_method\<rparr>)"

text \<open>\<open>fuzzy_match_answer_text\<close>\<close>

record fuzzy_match =
  fm_index :: nat
  fm_similarity :: real
  fm_option_text :: string

definition final_similarity :: "seq_ratio \<Rightarrow> string \<Rightarrow> string \<Rightarrow> real" where
  "final_similarity ratio answer_text option_text =
     ratio (lower answer_text) (lower option_text)
       + calculate_keyword_overlap answer_text option_text * (2 / 10)"

definition best_matches :: "seq_ratio \<Rightarrow> string \<Rightarrow> question_option list \<Rightarrow> fuzzy_match list" where
  "best_matches ratio answer_text options =
     filter (\<lambda>m. fm_similarity m > 4 / 10)
       (map (\<lambda>(idx, (letter, option_text)).
               \<lparr>fm_index = idx,
                fm_similarity = final_similarity ratio answer_text option_text,
                fm_option_text = option_text\<rparr>)
            (enumerate 0 options))"

text \<open>
  \<open>best_matches.sort(key=..., reverse=True)\<close> is a stable sort by decreasing similarity:
  matches of equal similarity keep their order.
\<close>

definition sort_by_similarity :: "fuzzy_match list \<Rightarrow> fuzzy_match list" where
  "sort_by_similarity ms = sort_key (\<lambda>m. - fm_similarity m) ms"

definition fuzzy_match_answer_text :: "seq_ratio \<Rightarrow> string \<Rightarrow> question_option list \<Rightarrow> answer_result" where
  "fuzzy_match_answer_text ratio answer_text options =
     (case sort_by_similarity (best_matches ratio answer_text options) of
        best # _ \<Rightarrow>
          \<lparr>correct_answers = [fm_index best],
           validation_confidence = fm_similarity best,
           mapping_issues = [UsedFuzzyMatching (fm_similarity best)],
           mapping_method = ''fuzzy_text_match''\<rparr>
      | [] \<Rightarrow>
          \<lparr>correct_answers = [],
           validation_confidence = 0,
           mapping_issues = [NoFuzzyMatchFound],
           mapping_method = ''no_match_found''\<rparr>)"

text \<open>\<open>process_extracted_answer\<close>\<close>

definition process_extracted_answer ::
  "seq_ratio \<Rightarrow> string \<Rightarrow> question_option list \<Rightarrow> string \<Rightarrow> answer_result" where
  "process_extracted_answer ratio answer_text question_options method =
     (let letters = extract_answer_letters answer_text
      in if letters = [] then fuzzy_match_answer_text ratio answer_text question_options
         else (let indices = map letter_index letters;
                   validation = validate_answer_mapping ratio indices question_options answer_text
               in \<lparr>correct_answers = indices,
                   validation_confidence = v_confidence validation,
                   mapping_issues = v_issues validation,
                   mapping_method = v_validation_method validation\<rparr>))"

text \<open>\<open>flag_for_manual_review\<close>; its callers leave the threshold at the default \<open>0.7\<close>.\<close>

definition flag_for_manual_review :: "answer_result \<Rightarrow> real \<Rightarrow> bool" where
  "flag_for_manual_review answer_result threshold =
     (let review_triggers =
            [validation_confidence answer_result < threshold,
             length (mapping_issues answer_result) > 0,
             mapping_method answer_result \<in> set [''fuzzy_text_match'', ''no_match_found''],
             length (correct_answers answer_result) = 0]
      in list_ex (\<lambda>trigger. trigger) review_triggers)"

text \<open>\<open>str(n)\<close> for a natural number\<close>

definition digit_char :: "nat \<Rightarrow> char" where
  "digit_char d = ''0123456789'' ! d"

fun str_nat :: "nat \<Rightarrow> string" where
  "str_nat n = (if n < 10 then [digit_char n] else str_nat (n div 10) @ [digit_char (n mod 10)])"

declare str_nat.simps [simp del]

subsection \<open>One question: \<open>parse_question_answer\<close>\<close>

record question =
  q_question_id :: string
  q_question_number :: int
  q_question_text :: string
  q_options :: "question_option list"

record extracted_answer =
  ea_answer_text :: string
  ea_extraction_method :: string

record parsed_answer = answer_result +
  question_id :: string
  question_number :: int
  raw_answer_text :: string
  extraction_method :: string
  explanation :: string
  answer_keywords :: "string list"
  requires_manual_review :: bool

text \<open>
  \<open>find_question_section\<close>. \<open>detected_format\<close> is the attribute set by
  \<open>detect_pdf_format\<close>. The second loop is \<open>for i in range(30, 20, -5)\<close>.
\<close>

fun find_shorter :: "string \<Rightarrow> string \<Rightarrow> nat list \<Rightarrow> nat option" where
  "find_shorter question_clean content_lower [] = None"
| "find_shorter question_clean content_lower (i # rest) =
     (let short_question = take i question_clean
      in if py_in (lower short_question) content_lower
         then py_find content_lower (lower short_question)
         else find_shorter question_clean content_lower rest)"

definition find_question_section :: "string option \<Rightarrow> string \<Rightarrow> string \<Rightarrow> string option" where
  "find_question_section detected_format question_text pdf_content =
     (let question_clean = strip (collapse_whitespace question_text);
          question_start = take 50 question_clean;
          content_lower = lower pdf_content;
          question_lower = lower question_start;
          start_pos = (case py_find content_lower question_lower of
                         Some p \<Rightarrow> Some p
                       | None \<Rightarrow> find_shorter question_clean content_lower [30, 25])
      in case start_pos of
           None \<Rightarrow> None
         | Some start_pos \<Rightarrow>
             (let section =
                (if detected_format = Some ''surepassexam'' then
                   (case py_find_at content_lower ''new question'' (start_pos + 100) of
                      None \<Rightarrow> slice pdf_content start_pos (start_pos + 2000)
                    | Some next_question \<Rightarrow> slice pdf_content start_pos next_question)
                 else slice pdf_content start_pos (start_pos + 1500))
              in if section = [] then None else Some section))"

text \<open>
  \<open>extract_answer_multiple_patterns\<close> tries the six regular expressions of
  \<open>answer_patterns\<close> in order. \<open>search i section\<close> stands for
  \<open>answer_patterns[i].search(section)\<close>: \<open>None\<close>, or group 1 of the match.
\<close>

type_synonym pattern_search = "nat \<Rightarrow> string \<Rightarrow> string option"

fun try_answer_patterns :: "pattern_search \<Rightarrow> string \<Rightarrow> nat list \<Rightarrow> extracted_answer option" where
  "try_answer_patterns search section [] = None"
| "try_answer_patterns search section (i # rest) =
     (case search i section of
        Some answer_letters \<Rightarrow>
          Some \<lparr>ea_answer_text = answer_letters,
                ea_extraction_method = ''pattern_'' @ str_nat (i + 1)\<rparr>
      | None \<Rightarrow> try_answer_patterns search section rest)"

definition extract_answer_multiple_patterns :: "pattern_search \<Rightarrow> string \<Rightarrow> extracted_answer option" where
  "extract_answer_multiple_patterns search section = try_answer_patterns search section [0..<6]"

text \<open>\<open>extract_keywords\<close> of the answer parser\<close>

definition extract_keywords :: "string \<Rightarrow> string list" where
  "extract_keywords explanation_text =
     (if explanation_text = [] then []
      else take 10
             (filter (\<lambda>keyword. py_in (upper keyword) (upper explanation_text)) aws_keywords))"

text \<open>
  \<open>parse_question_answer\<close>. \<open>extract_explanation\<close> only fills the explanation of the
  record and is passed in as a function of the section.
\<close>

definition parse_question_answer ::
  "seq_ratio \<Rightarrow> pattern_search \<Rightarrow> (string \<Rightarrow> string) \<Rightarrow> string option
     \<Rightarrow> question \<Rightarrow> string \<Rightarrow> parsed_answer option" where
  "parse_question_answer ratio search extract_explanation detected_format question pdf_content =
     (case find_question_section detected_format (q_question_text question) pdf_content of
        None \<Rightarrow> None
      | Some question_section \<Rightarrow>
          (case extract_answer_multiple_patterns search question_section of
             None \<Rightarrow> None
           | Some extracted \<Rightarrow>
               (let answer_result =
                      process_extracted_answer ratio (ea_answer_text extracted)
                        (q_options question) (ea_extraction_method extracted);
                    explanation_text = extract_explanation question_section
                in Some \<lparr>correct_answers = correct_answers answer_result,
                         validation_confidence = validation_confidence answer_result,
                         mapping_issues = mapping_issues answer_result,
                         mapping_method = mapping_method answer_result,
                         question_id = q_question_id question,
                         question_number = q_question_number question,
                         raw_answer_text = ea_answer_text extracted,
                         extraction_method = ea_extraction_method extracted,
                         explanation = explanation_text,
                         answer_keywords = extract_keywords explanation_text,
                         requires_manual_review =
                           flag_for_manual_review answer_result (7 / 10)\<rparr>)))"

section \<open>The combiner (\<open>data_combiner.py\<close>, \<open>v2_data_combiner.py\<close>)\<close>

text \<open>
  An answer is a JSON object. The combiner reads its number and writes its \<open>source\<close>; an
  absent key is \<open>None\<close>. The two lists come from two files, so no object is shared and
  the assignments to \<open>answer['source']\<close> change the stored answer only. The dictionary
  \<open>combined\<close> is the list of its items in insertion order.
\<close>

datatype py_error = KeyError string | IOError string | ValueError string

record answer_entry =
  ae_question_number :: "int option"
  ae_answer_number :: "int option"
  ae_extraction_method :: string
  ae_source :: "string option"

record combiner_stats =
  duplicate_answers :: nat
  total_combined :: nat

type_synonym 'a combined = "(int \<times> 'a answer_entry_scheme) list"

text \<open>\<open>DataCombiner.merge_answer_sources\<close>: \<open>answer['answer_number']\<close> raises on an absent key.\<close>

fun add_enhanced :: "'a combined \<Rightarrow> 'a answer_entry_scheme list \<Rightarrow> py_error + 'a combined" where
  "add_enhanced combined [] = Inr combined"
| "add_enhanced combined (answer # answers) =
     (case ae_answer_number answer of
        None \<Rightarrow> Inl (KeyError ''answer_number'')
      | Some answer_num \<Rightarrow>
          add_enhanced (AList.update answer_num (answer\<lparr>ae_source := Some ''enhanced''\<rparr>) combined)
            answers)"

fun add_aggressive ::
  "'a combined \<times> nat \<Rightarrow> 'a answer_entry_scheme list \<Rightarrow> py_error + 'a combined \<times> nat" where
  "add_aggressive (combined, duplicates) [] = Inr (combined, duplicates)"
| "add_aggressive (combined, duplicates) (answer # answers) =
     (case ae_answer_number answer of
        None \<Rightarrow> Inl (KeyError ''answer_number'')
      | Some answer_num \<Rightarrow>
          (if map_of combined answer_num \<noteq> None
           then add_aggressive (combined, duplicates + 1) answers
           else add_aggressive
                  (AList.update answer_num (answer\<lparr>ae_source := Some ''aggressive''\<rparr>) combined,
                   duplicates) answers))"

definition merge_answer_sources ::
  "combiner_stats \<Rightarrow> 'a answer_entry_scheme list \<Rightarrow> 'a answer_entry_scheme list
     \<Rightarrow> py_error + 'a combined \<times> combiner_stats" where
  "merge_answer_sources stats enhanced_answers aggressive_answers =
     (case add_enhanced [] enhanced_answers of
        Inl e \<Rightarrow> Inl e
      | Inr combined \<Rightarrow>
          (case add_aggressive (combined, duplicate_answers stats) aggressive_answers of
             Inl e \<Rightarrow> Inl e
           | Inr (combined, duplicates) \<Rightarrow>
               Inr (combined,
                    stats\<lparr>duplicate_answers := duplicates, total_combined := length combined\<rparr>)))"

text \<open>
  \<open>V2DataCombiner.merge_answer_sources\<close>: the number is
  \<open>answer.get('question_number', answer.get('answer_number', 0))\<close>.
\<close>

definition v2_answer_num :: "'a answer_entry_scheme \<Rightarrow> int" where
  "v2_answer_num answer =
     (case ae_question_number answer of
        Some n \<Rightarrow> n
      | None \<Rightarrow> (case ae_answer_number answer of Some n \<Rightarrow> n | None \<Rightarrow> 0))"

fun v2_add_enhanced :: "'a combined \<Rightarrow> 'a answer_entry_scheme list \<Rightarrow> 'a combined" where
  "v2_add_enhanced combined [] = combined"
| "v2_add_enhanced combined (answer # answers) =
     v2_add_enhanced
       (AList.update (v2_answer_num answer) (answer\<lparr>ae_source := Some ''enhanced''\<rparr>) combined)
       answers"

fun v2_add_aggressive :: "'a combined \<times> nat \<Rightarrow> 'a answer_entry_scheme list \<Rightarrow> 'a combined \<times> nat" where
  "v2_add_aggressive (combined, duplicates) [] = (combined, duplicates)"
| "v2_add_aggressive (combined, duplicates) (answer # answers) =
     (if map_of combined (v2_answer_num answer) \<noteq> None
      then v2_add_aggressive (combined, duplicates + 1) answers
      else v2_add_aggressive
             (AList.update (v2_answer_num answer) (answer\<lparr>ae_source := Some ''aggressive''\<rparr>)
                combined,
              duplicates) answers)"

definition v2_merge_answer_sources ::
  "combiner_stats \<Rightarrow> 'a answer_entry_scheme list \<Rightarrow> 'a answer_entry_scheme list
     \<Rightarrow> 'a combined \<times> combiner_stats" where
  "v2_merge_answer_sources stats enhanced_answers aggressive_answers =
     (let combined = v2_add_enhanced [] enhanced_answers;
          (combined, duplicates) =
             v2_add_aggressive (combined, duplicate_answers stats) aggressive_answers
      in (combined, stats\<lparr>duplicate_answers := duplicates, total_combined := length combined\<rparr>))"

text \<open>
  For the proofs, the two loops over the answers for any way \<open>kf\<close> of reading the number
  of an answer: both versions of \<open>merge_answer_sources\<close> run these loops, the second
  with \<open>v2_answer_num\<close> and the first with \<open>v1_num\<close> when every answer has its number.
\<close>

definition enhanced_loop ::
  "('a answer_entry_scheme \<Rightarrow> int) \<Rightarrow> 'a combined \<Rightarrow> 'a answer_entry_scheme list
     \<Rightarrow> 'a combined" where
  "enhanced_loop kf c xs = foldl (\<lambda>c a. AList.update (kf a) (a\<lparr>ae_source := Some ''enhanced''\<rparr>) c) c xs"

definition aggressive_loop ::
  "('a answer_entry_scheme \<Rightarrow> int) \<Rightarrow> 'a combined \<times> nat \<Rightarrow> 'a answer_entry_scheme list
     \<Rightarrow> 'a combined \<times> nat" where
  "aggressive_loop kf cd xs =
     foldl (\<lambda>(c, d) a. if map_of c (kf a) \<noteq> None then (c, d + 1)
                         else (AList.update (kf a) (a\<lparr>ae_source := Some ''aggressive''\<rparr>) c, d)) cd xs"

definition v1_num :: "'a answer_entry_scheme \<Rightarrow> int" where
  "v1_num a = (case ae_answer_number a of Some n \<Rightarrow> n | None \<Rightarrow> 0)"

section \<open>The segmenter (\<open>answer_parser.py\<close>, \<open>aggressive_parser.py\<close>)\<close>

text \<open>
  The delimiter is the regular expression \<open>(\d+)\]\<close>: a run of digits and a closing
  bracket. \<open>finditer\<close> yields, from left to right, the matches that do not overlap; a
  match is kept as its start and its group 1. A run of digits that no bracket follows
  holds no match, and the digits of a match are the whole run before the bracket, so
  one pass over the text finds the matches: \<open>run\<close> is the run of digits that ends at
  the current position.
\<close>

record re_match =
  m_start :: nat
  m_group1 :: string

definition is_digit :: "char \<Rightarrow> bool" where
  "is_digit c = (c \<in> set ''0123456789'')"

fun scan_delimiter :: "nat \<Rightarrow> (nat \<times> string) option \<Rightarrow> string \<Rightarrow> re_match list" where
  "scan_delimiter pos run [] = []"
| "scan_delimiter pos run (c # cs) =
     (if is_digit c then
        scan_delimiter (Suc pos)
          (case run of None \<Rightarrow> Some (pos, [c]) | Some (start, digits) \<Rightarrow> Some (start, digits @ [c]))
          cs
      else if c = CHR '']'' then
        (case run of
           Some (start, digits) \<Rightarrow>
             \<lparr>m_start = start, m_group1 = digits\<rparr> # scan_delimiter (Suc pos) None cs
         | None \<Rightarrow> scan_delimiter (Suc pos) None cs)
      else scan_delimiter (Suc pos) None cs)"

definition question_delimiter_finditer :: "string \<Rightarrow> re_match list" where
  "question_delimiter_finditer content = scan_delimiter 0 None content"

text \<open>\<open>int(s)\<close> for a string of digits\<close>

definition digit_value :: "char \<Rightarrow> nat" where
  "digit_value c = of_char c - of_char (CHR ''0'')"

definition int_of_digits :: "string \<Rightarrow> nat" where
  "int_of_digits s = foldl (\<lambda>n c. 10 * n + digit_value c) 0 s"

text \<open>
  \<open>int(s)\<close> as the interpreter runs it: a string with more digits than
  \<open>sys.get_int_max_str_digits()\<close> raises \<open>ValueError\<close> (the limit is 4300 by default from
  CPython 3.11 on, leading zeros count, and 0 stands for no limit).
\<close>

definition py_int :: "nat \<Rightarrow> string \<Rightarrow> py_error + nat" where
  "py_int max_str_digits s =
     (if 0 < max_str_digits \<and> max_str_digits < length s
      then Inl (ValueError (''Exceeds the limit ('' @ str_nat max_str_digits
                  @ '' digits) for integer string conversion: value has ''
                  @ str_nat (length s)
                  @ '' digits; use sys.set_int_max_str_digits() to increase the limit''))
      else Inr (int_of_digits s))"

text \<open>
  The loops of the segmenters convert the number of every match, in the order of the
  matches, before they look at its segment. The first conversion that raises ends the
  loop with its exception and nothing of the segments built so far is returned; when
  none raises, every number is \<open>int_of_digits\<close> of its digits.
\<close>

fun conversion_error :: "nat \<Rightarrow> re_match list \<Rightarrow> py_error option" where
  "conversion_error max_str_digits [] = None"
| "conversion_error max_str_digits (m # ms) =
     (case py_int max_str_digits (m_group1 m) of
        Inl e \<Rightarrow> Some e
      | Inr question_num \<Rightarrow> conversion_error max_str_digits ms)"

text \<open>
  Both segmenters compute the text of the segment of the \<open>i\<close>-th match in the same way:
  from the start of the match to the start of the next match, or to the end of the
  text for the last match, and stripped.
\<close>

definition segment_end :: "string \<Rightarrow> re_match list \<Rightarrow> nat \<Rightarrow> nat" where
  "segment_end content matches i =
     (if i + 1 < length matches then m_start (matches ! (i + 1)) else length content)"

definition segment_content :: "string \<Rightarrow> re_match list \<Rightarrow> nat \<Rightarrow> string" where
  "segment_content content matches i =
     (let start_pos = m_start (matches ! i);
          end_pos = segment_end content matches i
      in strip (slice content start_pos end_pos))"

record segment =
  seg_number :: nat
  seg_content :: string

text \<open>\<open>AnswerParser.segment_by_questions\<close>, for a text on which no conversion raises\<close>

definition segment_by_questions :: "string \<Rightarrow> segment list" where
  "segment_by_questions content =
     (let matches = question_delimiter_finditer content
      in foldl (\<lambda>segments i.
                  (let question_num = int_of_digits (m_group1 (matches ! i));
                       text_of_segment = segment_content content matches i
                   in if length text_of_segment > 50
                      then segments @ [\<lparr>seg_number = question_num, seg_content = text_of_segment\<rparr>]
                      else segments))
           [] [0..<length matches])"


section \<open>\<open>AnswerParser.parse_answers\<close>\<close>

text \<open>
  The answer of a segment, the statistics of the parser and the output. The entries of
  the two report lists that \<open>parse_segment\<close> writes are left open (\<open>'l\<close>, \<open>'u\<close>).
\<close>

record segment_answer =
  answer_number :: nat
  question_preview :: string
  correct_answer :: string
  answer_format :: string
  sa_explanation :: string
  sa_keywords :: "string list"
  sa_raw_text :: string
  parsing_confidence :: real

record parsing_error =
  pe_answer_number :: nat
  pe_error :: string
  pe_content_preview :: string

record ('l, 'u) parser_stats =
  total_segments :: nat
  successfully_parsed :: nat
  format_distribution :: "(string \<times> nat) list"
  parsing_errors :: "parsing_error list"
  low_confidence_answers :: "'l list"
  unparseable_segments :: "'u list"

record output_metadata =
  parsing_date :: string
  source_file :: string
  md_total_segments :: nat
  total_answers :: nat
  parsing_success_rate :: real
  average_confidence :: real
  md_format_distribution :: "(string \<times> nat) list"
  low_confidence_count :: nat
  unparseable_count :: nat
  md_parsing_errors :: nat

record ('l, 'u) parsing_report =
  format_breakdown :: "(string \<times> nat) list"
  pr_low_confidence_answers :: "'l list"
  pr_unparseable_segments :: "'u list"
  pr_parsing_errors :: "parsing_error list"

record ('l, 'u) parser_output =
  metadata :: output_metadata
  answers :: "segment_answer list"
  report :: "('l, 'u) parsing_report"

text \<open>
  What the run takes from outside the text: \<open>datetime.now().isoformat()\<close>, the library
  function \<open>round(x, 3)\<close> on floats, and the interpreter's limit on the digits of
  \<open>int(s)\<close>.
\<close>

record py_clock =
  now_isoformat :: string
  round3 :: "real \<Rightarrow> real"
  int_max_str_digits :: nat

text \<open>\<open>create_output\<close>\<close>

definition create_output ::
  "py_clock \<Rightarrow> ('l, 'u) parser_stats \<Rightarrow> segment_answer list \<Rightarrow> string \<Rightarrow> ('l, 'u) parser_output" where
  "create_output clock stats parsed text_path =
     (let success_rate =
            (if total_segments stats > 0
             then real (successfully_parsed stats) / real (total_segments stats) else 0);
          confidences = map parsing_confidence parsed;
          avg_confidence =
            (if confidences \<noteq> [] then sum_list confidences / real (length confidences) else 0)
      in \<lparr>metadata =
            \<lparr>parsing_date = now_isoformat clock,
             source_file = text_path,
             md_total_segments = total_segments stats,
             total_answers = length parsed,
             parsing_success_rate = round3 clock success_rate,
             average_confidence = round3 clock avg_confidence,
             md_format_distribution = format_distribution stats,
             low_confidence_count = length (low_confidence_answers stats),
             unparseable_count = length (unparseable_segments stats),
             md_parsing_errors = length (parsing_errors stats)\<rparr>,
          answers = parsed,
          report =
            \<lparr>format_breakdown = format_distribution stats,
             pr_low_confidence_answers = take 10 (low_confidence_answers stats),
             pr_unparseable_segments = unparseable_segments stats,
             pr_parsing_errors = take 5 (parsing_errors stats)\<rparr>\<rparr>)"

text \<open>
  \<open>parse_segment\<close> is passed in as a function: from the statistics, the number and the
  text of a segment to the statistics it leaves and to the answer, \<open>None\<close>, or the
  message of the exception it raised. The loop of \<open>parse_answers\<close> catches that
  exception and goes on.
\<close>

type_synonym ('l, 'u) segment_parser =
  "('l, 'u) parser_stats \<Rightarrow> nat \<Rightarrow> string \<Rightarrow> (string + segment_answer option) \<times> ('l, 'u) parser_stats"

fun parse_segments ::
  "('l, 'u) segment_parser \<Rightarrow> segment_answer list \<times> ('l, 'u) parser_stats \<Rightarrow> segment list
     \<Rightarrow> segment_answer list \<times> ('l, 'u) parser_stats" where
  "parse_segments parse_segment (parsed, stats) [] = (parsed, stats)"
| "parse_segments parse_segment (parsed, stats) (seg # segments) =
     (case parse_segment stats (seg_number seg) (seg_content seg) of
        (Inr (Some answer_data), stats') \<Rightarrow>
          parse_segments parse_segment
            (parsed @ [answer_data],
             stats'\<lparr>successfully_parsed := successfully_parsed stats' + 1\<rparr>) segments
      | (Inr None, stats') \<Rightarrow> parse_segments parse_segment (parsed, stats') segments
      | (Inl message, stats') \<Rightarrow>
          parse_segments parse_segment
            (parsed,
             stats'\<lparr>parsing_errors := parsing_errors stats' @
                       [\<lparr>pe_answer_number = seg_number seg, pe_error = message,
                         pe_content_preview = take 200 (seg_content seg)\<rparr>]\<rparr>) segments)"

text \<open>
  \<open>parse_answers\<close>. \<open>file\<close> is what reading \<open>text_path\<close> gives: the text, or the
  exception, which \<open>parse_answers\<close> raises again. \<open>segment_by_questions\<close> is called
  outside every \<open>try\<close>, so the \<open>ValueError\<close> of a conversion in it leaves \<open>parse_answers\<close>
  too.
\<close>

definition parse_answers ::
  "py_clock \<Rightarrow> ('l, 'u) segment_parser \<Rightarrow> ('l, 'u) parser_stats \<Rightarrow> string \<Rightarrow> py_error + string
     \<Rightarrow> py_error + ('l, 'u) parser_output" where
  "parse_answers clock parse_segment stats text_path file =
     (case file of
        Inl e \<Rightarrow> Inl e
      | Inr content \<Rightarrow>
          (case conversion_error (int_max_str_digits clock) (question_delimiter_finditer content) of
             Some e \<Rightarrow> Inl e
           | None \<Rightarrow>
               (let segments = segment_by_questions content;
                    (parsed, stats1) = parse_segments parse_segment ([], stats) segments;
                    stats2 = stats1\<lparr>total_segments := length segments\<rparr>
                in Inr (create_output clock stats2 parsed text_path))))"

section \<open>The aggressive recoverer (\<open>v2_aggressive_parser.py\<close>)\<close>

text \<open>
  \<open>aws_keywords\<close> and \<open>action_keywords\<close> of \<open>V2AggressiveParser\<close> are sets of strings;
  the lists below hold their elements as the source writes them.
\<close>

definition aggressive_aws_keywords :: "string list" where
  "aggressive_aws_keywords =
    [''S3'', ''EC2'', ''VPC'', ''RDS'', ''Lambda'', ''CloudWatch'', ''IAM'', ''EBS'', ''ELB'',
     ''Auto Scaling'', ''CloudFormation'', ''Route 53'', ''CloudFront'', ''SQS'', ''SNS'',
     ''DynamoDB'', ''Kinesis'', ''API Gateway'', ''ElastiCache'', ''ECS'', ''EKS'',
     ''Elastic Beanstalk'', ''Systems Manager'', ''Secrets Manager'', ''WAF'',
     ''Direct Connect'', ''Transit Gateway'', ''NAT Gateway'', ''Internet Gateway'',
     ''Config'', ''Trusted Advisor'', ''Inspector'', ''GuardDuty'', ''Macie'', ''KMS'',
     ''Certificate Manager'', ''Directory Service'', ''SSO'', ''Organizations'']"

definition action_keywords :: "string list" where
  "action_keywords =
    [''create'', ''configure'', ''setup'', ''enable'', ''deploy'', ''implement'', ''use'',
     ''add'', ''remove'', ''migrate'', ''scale'', ''monitor'', ''secure'', ''backup'',
     ''restore'', ''optimize'', ''troubleshoot'', ''analyze'', ''evaluate'']"

text \<open>
  The nine regular expressions of \<open>aggressive_patterns\<close>, by name and in order; the first
  five have two groups (a letter and a text), the other four have one.
\<close>

definition letter_patterns :: "string list" where
  "letter_patterns =
    [''letter_flexible'', ''action_based'', ''aws_service_based'', ''sentence_based'',
     ''line_extraction'']"

definition aggressive_patterns :: "string list" where
  "aggressive_patterns =
    letter_patterns @
    [''standalone_action'', ''aws_heavy_heuristic'', ''answer_indicator'', ''option_context'']"

text \<open>An element of \<open>pattern.findall(text)\<close>: a tuple of two groups, or a string.\<close>

datatype pattern_match = Groups string string | Whole string

text \<open>
  What a run takes from the Python library and runtime:
  \<^item> \<open>search_number i n content\<close> is the start of the match of
    \<open>re.search(p, content, re.IGNORECASE)\<close>, where \<open>p\<close> is the \<open>i\<close>-th pattern that
    \<open>find_question_context\<close> builds from the question number \<open>n\<close>;
  \<^item> \<open>findall name text\<close> is \<open>pattern.findall(text)\<close> for the pattern called \<open>name\<close>;
  \<^item> \<open>iter_aws_keywords\<close> and \<open>iter_action_keywords\<close> list the two sets of keywords in
    the order in which this run iterates over them. Python does not fix the order of
    a set of strings: it follows the hashes of the strings, which change from one
    process to the next.
\<close>

record py_runtime =
  search_number :: "nat \<Rightarrow> int \<Rightarrow> string \<Rightarrow> nat option"
  findall :: "string \<Rightarrow> string \<Rightarrow> pattern_match list"
  iter_aws_keywords :: "string list"
  iter_action_keywords :: "string list"

record answer_candidate =
  raw_text :: string
  clean_text :: string
  cand_explanation :: string
  cand_issues :: "string list"

text \<open>\<open>find_question_context\<close>\<close>

fun first_search :: "py_runtime \<Rightarrow> int \<Rightarrow> string \<Rightarrow> nat list \<Rightarrow> nat option" where
  "first_search rt n content [] = None"
| "first_search rt n content (i # rest) =
     (case search_number rt i n content of
        Some start \<Rightarrow> Some start
      | None \<Rightarrow> first_search rt n content rest)"

definition find_question_context :: "py_runtime \<Rightarrow> int \<Rightarrow> string \<Rightarrow> string" where
  "find_question_context rt n pdf_content =
     (case first_search rt n pdf_content [0..<5] of
        Some start \<Rightarrow> strip (slice pdf_content (start - 200) (start + 2000))
      | None \<Rightarrow> [])"

text \<open>
  \<open>clean_answer_text\<close>. The two prefixes are
  \<open>re.sub(r'^[A-E][.\):;\-\s]*', '', s)\<close> and, ignoring case,
  \<open>re.sub(r'^Option\s+[A-E][.\):\s]*', '', s)\<close>; the sentences are
  \<open>re.split(r'(?<=[.!?])\s+', s)\<close>.
\<close>

definition strip_letter_prefix :: "string \<Rightarrow> string" where
  "strip_letter_prefix s =
     (case s of
        [] \<Rightarrow> []
      | c # cs \<Rightarrow>
          if c \<in> set ''ABCDE'' then dropWhile (\<lambda>d. d \<in> set ''.):;-'' \<or> is_space d) cs else s)"

definition strip_option_prefix :: "string \<Rightarrow> string" where
  "strip_option_prefix s =
     (if startswith (lower s) ''option'' then
        (let after_word = drop 6 s;
             after_space = dropWhile is_space after_word
         in case after_space of
              [] \<Rightarrow> s
            | c # cs \<Rightarrow>
                if after_space \<noteq> after_word \<and> lower_char c \<in> set ''abcde''
                then dropWhile (\<lambda>d. d \<in> set ''.):'' \<or> is_space d) cs
                else s)
      else s)"

fun split_sentences_run :: "bool \<Rightarrow> string \<Rightarrow> string \<Rightarrow> string list" where
  "split_sentences_run in_separator sentence [] = [sentence]"
| "split_sentences_run in_separator sentence (c # cs) =
     (if is_space c \<and> in_separator then split_sentences_run True sentence cs
      else if is_space c \<and> sentence \<noteq> [] \<and> last sentence \<in> set ''.!?''
      then sentence # split_sentences_run True [] cs
      else split_sentences_run False (sentence @ [c]) cs)"

definition split_sentences :: "string \<Rightarrow> string list" where
  "split_sentences s = split_sentences_run False [] s"

definition clean_answer_text :: "string \<Rightarrow> string" where
  "clean_answer_text s =
     (let s1 = strip_letter_prefix s;
          s2 = strip_option_prefix s1;
          s3 = strip (collapse_whitespace s2)
      in case split_sentences s3 of
           [] \<Rightarrow> take 300 s3
         | first # others \<Rightarrow>
             if length first > 15 then
               (case others of
                  second # _ \<Rightarrow> if length first < 100 then first @ '' '' @ second else first
                | [] \<Rightarrow> first)
             else take 300 s3)"

text \<open>
  \<open>process_aggressive_match\<close>. \<open>str(match)\<close> of a tuple is written out for groups
  without quotes, backslashes and control characters; the patterns that reach it
  have one group and yield no tuple.
\<close>

definition str_of_match :: "pattern_match \<Rightarrow> string" where
  "str_of_match m =
     (case m of
        Whole s \<Rightarrow> s
      | Groups g1 g2 \<Rightarrow> ''('' @ [CHR 0x27] @ g1 @ [CHR 0x27] @ '', '' @ [CHR 0x27] @ g2 @ [CHR 0x27] @ '')'')"

definition process_aggressive_match :: "pattern_match \<Rightarrow> string \<Rightarrow> answer_candidate option" where
  "process_aggressive_match m pattern_name =
     (let (raw, answer_text) =
            (if pattern_name \<in> set letter_patterns then
               (case m of
                  Groups g1 g2 \<Rightarrow>
                    (let letter = strip g1; answer_text = strip g2
                     in (letter @ ''. '' @ answer_text, answer_text))
                | Whole s \<Rightarrow> (strip s, strip s))
             else (strip (str_of_match m), strip (str_of_match m)));
          cleaned = clean_answer_text answer_text
      in if length cleaned < 10 \<or> length cleaned > 1000 then None
         else Some \<lparr>raw_text = raw, clean_text = cleaned, cand_explanation = cleaned,
                    cand_issues = []\<rparr>)"

text \<open>\<open>calculate_aggressive_confidence\<close>\<close>

definition method_bonus :: "(string \<times> real) list" where
  "method_bonus =
    [(''letter_flexible'', 3 / 10), (''action_based'', 25 / 100), (''aws_service_based'', 2 / 10),
     (''sentence_based'', 15 / 100), (''line_extraction'', 1 / 10), (''standalone_action'', 2 / 10),
     (''aws_heavy_heuristic'', 1 / 10), (''answer_indicator'', 15 / 100), (''option_context'', 1 / 10),
     (''context_inference'', 15 / 100), (''keyword_inference'', 5 / 100)]"

text \<open>\<open>len(set(a.split()).intersection(set(b.split())))\<close>\<close>

definition word_overlap :: "string \<Rightarrow> string \<Rightarrow> nat" where
  "word_overlap a b = length (remdups (filter (\<lambda>w. w \<in> set (py_split b)) (py_split a)))"

definition calculate_aggressive_confidence ::
  "py_runtime \<Rightarrow> answer_candidate \<Rightarrow> string \<Rightarrow> string \<Rightarrow> string \<Rightarrow> string list \<Rightarrow> real" where
  "calculate_aggressive_confidence rt answer_data context method_name question_text options =
     (let c0 = 2 / 10 + (case map_of method_bonus method_name of Some bonus \<Rightarrow> bonus | None \<Rightarrow> 0);
          answer_text = clean_text answer_data;
          n = length answer_text;
          c1 = (if 20 \<le> n \<and> n \<le> 200 then c0 + 2 / 10
                else if 15 \<le> n \<and> n \<le> 300 then c0 + 1 / 10 else c0);
          aws_count =
            length (filter (\<lambda>keyword. py_in (lower keyword) (lower answer_text))
                      (iter_aws_keywords rt));
          c2 = c1 + min (real aws_count * (5 / 100)) (15 / 100);
          action_count =
            length (filter (\<lambda>word. py_in word (lower answer_text)) (iter_action_keywords rt));
          c3 = c2 + min (real action_count * (3 / 100)) (1 / 10);
          c4 = (if question_text \<noteq> [] then
                  c3 + min (real (word_overlap (lower question_text) (lower answer_text)) * (2 / 100))
                         (1 / 10)
                else c3);
          c5 = (if n < 15 then c4 - 2 / 10 else if n > 500 then c4 - 1 / 10 else c4)
      in min (max c5 (1 / 10)) 1)"

text \<open>
  \<open>infer_from_context\<close> and \<open>infer_from_keywords\<close>. An option is given by its text (the
  entry \<open>text\<close> of its dictionary, empty when absent). \<open>sort(key=score, reverse=True)\<close> is
  a stable sort by decreasing score.
\<close>

definition letter_of :: "nat \<Rightarrow> char" where
  "letter_of i = char_of (of_char (CHR ''A'') + i)"

definition sort_by_score :: "(nat \<times> nat \<times> string) list \<Rightarrow> (nat \<times> nat \<times> string) list" where
  "sort_by_score option_scores = sort_key (\<lambda>(i, score, option_text). - int score) option_scores"

definition context_score :: "py_runtime \<Rightarrow> string \<Rightarrow> string \<Rightarrow> nat" where
  "context_score rt option_text context =
     (let context_lower = lower context
      in 2 * length (filter (\<lambda>keyword. py_in (lower keyword) option_text
                                        \<and> py_in (lower keyword) context_lower)
                       (iter_aws_keywords rt))
         + length (filter (\<lambda>action. py_in action option_text \<and> py_in action context_lower)
                     (iter_action_keywords rt))
         + length (filter (\<lambda>word. length word > 4 \<and> py_in word context_lower)
                     (py_split option_text)))"

definition infer_from_context ::
  "py_runtime \<Rightarrow> string \<Rightarrow> string list \<Rightarrow> string \<Rightarrow> answer_candidate option" where
  "infer_from_context rt question_text options context =
     (if options = [] then None
      else (case sort_by_score
                   (map (\<lambda>(i, option_text). (i, context_score rt (lower option_text) context, option_text))
                      (enumerate 0 options)) of
              [] \<Rightarrow> None
            | (i, best_score, option_text) # _ \<Rightarrow>
                if best_score > 1 then
                  Some \<lparr>raw_text = letter_of i # ''. '' @ option_text,
                        clean_text = option_text,
                        cand_explanation =
                          ''Inferred from context analysis (score: '' @ str_nat best_score @ '')'',
                        cand_issues = [''context_inference'']\<rparr>
                else None))"

definition keyword_score :: "py_runtime \<Rightarrow> string \<Rightarrow> string \<Rightarrow> nat" where
  "keyword_score rt question_lower option_text =
     (let question_words = py_split question_lower;
          option_words = py_split option_text;
          common_words = remdups (filter (\<lambda>w. w \<in> set option_words) question_words);
          aws_in_option =
            length (filter (\<lambda>keyword. py_in (lower keyword) option_text) (iter_aws_keywords rt))
      in length (filter (\<lambda>w. length w > 3) common_words) + aws_in_option * 2)"

definition infer_from_keywords ::
  "py_runtime \<Rightarrow> string \<Rightarrow> string list \<Rightarrow> string \<Rightarrow> answer_candidate option" where
  "infer_from_keywords rt question_text options context =
     (if options = [] then None
      else (case sort_by_score
                   (map (\<lambda>(i, option_text).
                           (i, keyword_score rt (lower question_text) (lower option_text), option_text))
                      (enumerate 0 options)) of
              [] \<Rightarrow> None
            | (i, best_score, option_text) # _ \<Rightarrow>
                if best_score > 0 then
                  Some \<lparr>raw_text = letter_of i # ''. '' @ option_text,
                        clean_text = option_text,
                        cand_explanation =
                          ''Inferred from keyword analysis (score: '' @ str_nat best_score @ '')'',
                        cand_issues = [''keyword_inference'']\<rparr>
                else None))"

text \<open>
  \<open>extract_answer_letters\<close> of the aggressive recoverer: five regular expressions,
  all ignoring case, whose letters go into one set.
  \<^item> \<open>^([A-E])(?:[.\)\:\s]|$)\<close>: a letter at the start of the text;
  \<^item> \<open>(?:Answer|Solution|Correct)[\s:]*([A-E])(?:[.\)\:\s]|$)\<close> and the same after
    \<open>Option|Choice\<close>: no two matches of these overlap, so the matches are the places
    where the pattern matches;
  \<^item> \<open>\b([A-E])\s+is\s+correct\<close>;
  \<^item> \<open>([A-E])\s*[,\s]\s*([A-E])\<close>: two letters with white space, or white space
    around one comma, between them; \<open>findall\<close> goes on after the second letter.
\<close>

definition is_answer_letter :: "char \<Rightarrow> bool" where
  "is_answer_letter c = (lower_char c \<in> set ''abcde'')"

definition letter_terminated :: "string \<Rightarrow> bool" where
  "letter_terminated rest = (case rest of [] \<Rightarrow> True | d # _ \<Rightarrow> d \<in> set ''.):'' \<or> is_space d)"

definition letters_at_start :: "string \<Rightarrow> string" where
  "letters_at_start s =
     (case s of
        [] \<Rightarrow> []
      | c # rest \<Rightarrow> if is_answer_letter c \<and> letter_terminated rest then [upper_char c] else [])"

definition letter_after_word :: "string \<Rightarrow> string \<Rightarrow> string" where
  "letter_after_word word s =
     (if startswith (lower s) word then
        (case dropWhile (\<lambda>d. is_space d \<or> d = CHR '':'') (drop (length word) s) of
           [] \<Rightarrow> []
         | c # rest \<Rightarrow> if is_answer_letter c \<and> letter_terminated rest then [upper_char c] else [])
      else [])"

fun letters_after_words :: "string list \<Rightarrow> string \<Rightarrow> string" where
  "letters_after_words ws [] = []"
| "letters_after_words ws (c # cs) =
     concat (map (\<lambda>w. letter_after_word w (c # cs)) ws) @ letters_after_words ws cs"

definition is_word_char :: "char \<Rightarrow> bool" where
  "is_word_char c = (c \<in> set (ascii_lowercase @ ascii_uppercase @ ''0123456789_''))"

definition is_correct_follows :: "string \<Rightarrow> bool" where
  "is_correct_follows rest =
     (let r1 = dropWhile is_space rest;
          r2 = drop 2 r1;
          r3 = dropWhile is_space r2
      in r1 \<noteq> rest \<and> startswith (lower r1) ''is'' \<and> r3 \<noteq> r2 \<and> startswith (lower r3) ''correct'')"

fun letters_is_correct :: "bool \<Rightarrow> string \<Rightarrow> string" where
  "letters_is_correct after_word_char [] = []"
| "letters_is_correct after_word_char (c # cs) =
     (if \<not> after_word_char \<and> is_answer_letter c \<and> is_correct_follows cs then [upper_char c] else [])
     @ letters_is_correct (is_word_char c) cs"

definition pair_at :: "string \<Rightarrow> (char \<times> char \<times> nat) option" where
  "pair_at s =
     (case s of
        [] \<Rightarrow> None
      | c # rest \<Rightarrow>
          if is_answer_letter c then
            (let r1 = dropWhile is_space rest;
                 r2 = (case r1 of
                         [] \<Rightarrow> []
                       | d # r \<Rightarrow> if d = CHR '','' then dropWhile is_space r else r1)
             in case r2 of
                  [] \<Rightarrow> None
                | e # _ \<Rightarrow>
                    if r2 \<noteq> rest \<and> is_answer_letter e
                    then Some (upper_char c, upper_char e, length s - length r2 + 1)
                    else None)
          else None)"

fun scan_pairs :: "nat \<Rightarrow> string \<Rightarrow> string" where
  "scan_pairs skip [] = []"
| "scan_pairs skip (c # cs) =
     (case skip of
        Suc k \<Rightarrow> scan_pairs k cs
      | 0 \<Rightarrow>
          (case pair_at (c # cs) of
             Some (l1, l2, n) \<Rightarrow> [l1, l2] @ scan_pairs (n - 1) cs
           | None \<Rightarrow> scan_pairs 0 cs))"

definition aggressive_extract_answer_letters :: "string \<Rightarrow> string" where
  "aggressive_extract_answer_letters s =
     (let letters =
            letters_at_start s
            @ letters_after_words [''answer'', ''solution'', ''correct''] s
            @ letters_after_words [''option'', ''choice''] s
            @ letters_is_correct False s
            @ scan_pairs 0 s;
          valid_letters = filter (\<lambda>l. l \<in> set letters) ''ABCDE''
      in take 3 valid_letters)"

text \<open>\<open>extract_keywords\<close> of the aggressive recoverer; \<open>title\<close> is \<open>str.title\<close>.\<close>

fun title_run :: "bool \<Rightarrow> string \<Rightarrow> string" where
  "title_run after_letter [] = []"
| "title_run after_letter (c # cs) =
     (if c \<in> set (ascii_lowercase @ ascii_uppercase)
      then (if after_letter then lower_char c else upper_char c) # title_run True cs
      else c # title_run False cs)"

definition title :: "string \<Rightarrow> string" where
  "title s = title_run False s"

definition aggressive_extract_keywords :: "py_runtime \<Rightarrow> string \<Rightarrow> string list" where
  "aggressive_extract_keywords rt s =
     (let text_lower = lower s
      in take 10
           (filter (\<lambda>keyword. py_in (lower keyword) text_lower) (iter_aws_keywords rt)
            @ map title (filter (\<lambda>action. py_in action text_lower) (iter_action_keywords rt))))"

subsection \<open>\<open>extract_answer_aggressively\<close>\<close>

record question_data =
  qd_question_id :: string
  qd_question_number :: int
  qd_question_text :: string
  qd_options :: "string list"

record aggressive_answer =
  ag_question_id :: string
  ag_question_number :: int
  ag_raw_answer_text :: string
  ag_extraction_method :: "string option"
  ag_correct_answers :: "nat list"
  ag_validation_confidence :: real
  ag_mapping_issues :: "string list"
  ag_mapping_method :: string
  ag_explanation :: string
  ag_keywords :: "string list"
  ag_requires_manual_review :: bool
  ag_aggressive_extraction :: bool
  ag_parsing_confidence :: real

text \<open>The three variables \<open>best_answer\<close>, \<open>best_confidence\<close> and \<open>best_method\<close>.\<close>

record best_candidate =
  best_answer :: "answer_candidate option"
  best_confidence :: real
  best_method :: "string option"

record aggressive_stats =
  pattern_usage :: "(string \<times> nat) list"
  inference_types :: "(string \<times> nat) list"

text \<open>\<open>d[k] = d.get(k, 0) + 1\<close>\<close>

definition count_up :: "string \<Rightarrow> (string \<times> nat) list \<Rightarrow> (string \<times> nat) list" where
  "count_up k d = AList.update k (case map_of d k of Some n \<Rightarrow> n + 1 | None \<Rightarrow> 1) d"

text \<open>Method 1: the loop over the matches of one pattern, and the loop over the patterns.\<close>

fun match_loop ::
  "py_runtime \<Rightarrow> string \<Rightarrow> string \<Rightarrow> string list \<Rightarrow> string \<Rightarrow> best_candidate
     \<Rightarrow> pattern_match list \<Rightarrow> best_candidate" where
  "match_loop rt question_context question_text options pattern_name best [] = best"
| "match_loop rt question_context question_text options pattern_name best (m # ms) =
     (case process_aggressive_match m pattern_name of
        None \<Rightarrow> match_loop rt question_context question_text options pattern_name best ms
      | Some answer_candidate \<Rightarrow>
          (let confidence =
                 calculate_aggressive_confidence rt answer_candidate question_context pattern_name
                   question_text options
           in if confidence > best_confidence best
              then match_loop rt question_context question_text options pattern_name
                     \<lparr>best_answer = Some answer_candidate, best_confidence = confidence,
                      best_method = Some pattern_name\<rparr> ms
              else match_loop rt question_context question_text options pattern_name best ms))"

fun pattern_loop ::
  "py_runtime \<Rightarrow> string \<Rightarrow> string \<Rightarrow> string list \<Rightarrow> best_candidate \<Rightarrow> string list
     \<Rightarrow> best_candidate" where
  "pattern_loop rt question_context question_text options best [] = best"
| "pattern_loop rt question_context question_text options best (pattern_name # names) =
     pattern_loop rt question_context question_text options
       (match_loop rt question_context question_text options pattern_name best
          (findall rt pattern_name question_context))
       names"

definition pattern_extraction ::
  "py_runtime \<Rightarrow> string \<Rightarrow> string \<Rightarrow> string list \<Rightarrow> best_candidate" where
  "pattern_extraction rt question_context question_text options =
     pattern_loop rt question_context question_text options
       \<lparr>best_answer = None, best_confidence = 0, best_method = None\<rparr> aggressive_patterns"

text \<open>
  Methods 2 and 3. Next to the variables and the statistics, the model keeps the list
  \<open>calls\<close> of the methods that were run, in order, so that the order of the methods can
  be stated; the source keeps no such list.
\<close>

type_synonym attempt = "best_candidate \<times> aggressive_stats \<times> string list"

definition context_inference ::
  "py_runtime \<Rightarrow> string \<Rightarrow> string list \<Rightarrow> string \<Rightarrow> attempt \<Rightarrow> attempt" where
  "context_inference rt question_text options question_context a =
     (case a of (best, stats, calls) \<Rightarrow>
        if best_answer best = None \<or> best_confidence best < 4 / 10 then
          (case infer_from_context rt question_text options question_context of
             Some inferred_answer \<Rightarrow>
               if 35 / 100 > best_confidence best
               then (\<lparr>best_answer = Some inferred_answer, best_confidence = 35 / 100,
                      best_method = Some ''context_inference''\<rparr>,
                     stats\<lparr>inference_types := count_up ''context'' (inference_types stats)\<rparr>,
                     calls @ [''infer_from_context''])
               else (best, stats, calls @ [''infer_from_context''])
           | None \<Rightarrow> (best, stats, calls @ [''infer_from_context'']))
        else (best, stats, calls))"

definition keyword_inference ::
  "py_runtime \<Rightarrow> string \<Rightarrow> string list \<Rightarrow> string \<Rightarrow> attempt \<Rightarrow> attempt" where
  "keyword_inference rt question_text options question_context a =
     (case a of (best, stats, calls) \<Rightarrow>
        if best_answer best = None \<or> best_confidence best < 3 / 10 then
          (case infer_from_keywords rt question_text options question_context of
             Some keyword_answer \<Rightarrow>
               if 25 / 100 > best_confidence best
               then (\<lparr>best_answer = Some keyword_answer, best_confidence = 25 / 100,
                      best_method = Some ''keyword_inference''\<rparr>,
                     stats\<lparr>inference_types := count_up ''keyword'' (inference_types stats)\<rparr>,
                     calls @ [''infer_from_keywords''])
               else (best, stats, calls @ [''infer_from_keywords''])
           | None \<Rightarrow> (best, stats, calls @ [''infer_from_keywords'']))
        else (best, stats, calls))"

text \<open>The three methods in the order of the source.\<close>

definition run_methods ::
  "py_runtime \<Rightarrow> aggressive_stats \<Rightarrow> string \<Rightarrow> string list \<Rightarrow> string \<Rightarrow> attempt" where
  "run_methods rt stats question_text options question_context =
     keyword_inference rt question_text options question_context
       (context_inference rt question_text options question_context
          (pattern_extraction rt question_context question_text options, stats,
           [''aggressive_patterns'']))"

text \<open>The record that is returned for the winning candidate.\<close>

definition answer_record ::
  "py_runtime \<Rightarrow> question_data \<Rightarrow> answer_candidate \<Rightarrow> real \<Rightarrow> string option \<Rightarrow> string
     \<Rightarrow> aggressive_answer" where
  "answer_record rt qd best confidence method_name answer_letters =
     \<lparr>ag_question_id = qd_question_id qd,
      ag_question_number = qd_question_number qd,
      ag_raw_answer_text = raw_text best,
      ag_extraction_method = method_name,
      ag_correct_answers =
        map letter_index (filter (\<lambda>letter. upper_char letter \<in> set ''ABCDE'') answer_letters),
      ag_validation_confidence = confidence,
      ag_mapping_issues = cand_issues best,
      ag_mapping_method = ''aggressive_extraction'',
      ag_explanation = cand_explanation best,
      ag_keywords = aggressive_extract_keywords rt (raw_text best @ '' '' @ cand_explanation best),
      ag_requires_manual_review = True,
      ag_aggressive_extraction = True,
      ag_parsing_confidence = confidence\<rparr>"

definition extract_answer_aggressively ::
  "py_runtime \<Rightarrow> aggressive_stats \<Rightarrow> question_data \<Rightarrow> string
     \<Rightarrow> aggressive_answer option \<times> aggressive_stats \<times> string list" where
  "extract_answer_aggressively rt stats qd pdf_content =
     (let question_context = find_question_context rt (qd_question_number qd) pdf_content
      in if question_context = [] then (None, stats, [])
         else (case run_methods rt stats (qd_question_text qd) (qd_options qd) question_context of
                 (best, stats1, calls) \<Rightarrow>
                   (case best_answer best of
                      None \<Rightarrow> (None, stats1, calls)
                    | Some answer \<Rightarrow>
                        if best_confidence best \<ge> 2 / 10 then
                          (let stats2 =
                                 (case best_method best of
                                    None \<Rightarrow> stats1
                                  | Some m \<Rightarrow>
                                      if m \<noteq> []
                                      then stats1\<lparr>pattern_usage := count_up m (pattern_usage stats1)\<rparr>
                                      else stats1);
                               answer_letters = aggressive_extract_answer_letters (raw_text answer)
                           in if answer_letters \<noteq> []
                              then (Some (answer_record rt qd answer (best_confidence best)
                                            (best_method best) answer_letters),
                                    stats2, calls)
                              else (None, stats2, calls))
                        else (None, stats1, calls))))"

text \<open>
  For the proofs: what holds of the three variables after the loop over the patterns.
  Either no candidate was accepted, or the best candidate comes from one of the nine
  patterns and its issue list is empty.
\<close>

definition pattern_best :: "best_candidate \<Rightarrow> bool" where
  "pattern_best b =
     ((best_answer b = None \<and> best_method b = None) \<or>
      (\<exists>a m. best_answer b = Some a \<and> best_method b = Some m \<and> m \<in> set aggressive_patterns
             \<and> cand_issues a = []))"

section \<open>Example runs of the aggressive recoverer\<close>

text \<open>
  Four documents, each with question 7 at its start, and what the regular expressions
  of the source yield on them: the first pattern of \<open>find_question_context\<close> matches at
  position 0; on the first and the third document \<open>line_extraction\<close> matches from the
  capital \<open>C\<close>, and \<open>standalone_action\<close> and \<open>option_context\<close> match the sentence; no
  pattern matches on the second document; on the fourth, which is too short for the
  other patterns, \<open>standalone_action\<close> alone matches the sentence.
\<close>

definition example_action :: string where
  "example_action = ''7. Create an S3 Transfer Acceleration endpoint.''"

definition example_options :: string where
  "example_options = ''7. Which storage? Use S3 bucket now.''"

definition example_two_services :: string where
  "example_two_services = ''7. Create an S3 Transfer Acceleration endpoint for EC2.''"

definition example_configure :: string where
  "example_configure = ''7. Configure your S3.''"

definition example_search :: "nat \<Rightarrow> int \<Rightarrow> string \<Rightarrow> nat option" where
  "example_search i n s = (if i = 0 \<and> n = 7 \<and> startswith s ''7. '' then Some 0 else None)"

definition example_findall :: "string \<Rightarrow> string \<Rightarrow> pattern_match list" where
  "example_findall name s =
     (if s = example_action then
        (if name = ''line_extraction''
         then [Groups ''C'' ''reate an S3 Transfer Acceleration endpoint.'']
         else if name \<in> set [''standalone_action'', ''option_context'']
         then [Whole ''Create an S3 Transfer Acceleration endpoint.'']
         else [])
      else if s = example_two_services then
        (if name = ''line_extraction''
         then [Groups ''C'' ''reate an S3 Transfer Acceleration endpoint for EC2.'']
         else if name \<in> set [''standalone_action'', ''option_context'']
         then [Whole ''Create an S3 Transfer Acceleration endpoint for EC2.'']
         else [])
      else if s = example_configure then
        (if name = ''standalone_action'' then [Whole ''Configure your S3.''] else [])
      else [])"

text \<open>Two runs that differ in the order in which the set of AWS keywords is iterated.\<close>

definition example_runtime :: py_runtime where
  "example_runtime =
     \<lparr>search_number = example_search, findall = example_findall,
      iter_aws_keywords = aggressive_aws_keywords, iter_action_keywords = action_keywords\<rparr>"

definition example_runtime_other_order :: py_runtime where
  "example_runtime_other_order =
     \<lparr>search_number = example_search, findall = example_findall,
      iter_aws_keywords = rev aggressive_aws_keywords, iter_action_keywords = action_keywords\<rparr>"

definition example_question :: question_data where
  "example_question =
     \<lparr>qd_question_id = ''q7'', qd_question_number = 7, qd_question_text = [], qd_options = []\<rparr>"

definition example_question_with_options :: question_data where
  "example_question_with_options =
     \<lparr>qd_question_id = ''q7'', qd_question_number = 7, qd_question_text = ''Which storage?'',
      qd_options = [''Use S3 bucket'', ''Use EC2'']\<rparr>"

definition example_stats :: aggressive_stats where
  "example_stats = \<lparr>pattern_usage = [], inference_types = []\<rparr>"

section \<open>Example inputs of the combiners\<close>

definition example_enhanced :: "answer_entry list" where
  "example_enhanced =
     [\<lparr>ae_question_number = Some 1, ae_answer_number = Some 1,
       ae_extraction_method = ''pattern_1'', ae_source = None\<rparr>,
      \<lparr>ae_question_number = Some 2, ae_answer_number = Some 2,
       ae_extraction_method = ''pattern_2'', ae_source = None\<rparr>]"

definition example_aggressive :: "answer_entry list" where
  "example_aggressive =
     [\<lparr>ae_question_number = Some 2, ae_answer_number = Some 2,
       ae_extraction_method = ''standalone_action'', ae_source = None\<rparr>,
      \<lparr>ae_question_number = Some 3, ae_answer_number = Some 3,
       ae_extraction_method = ''line_extraction'', ae_source = None\<rparr>]"

definition example_combiner_stats :: combiner_stats where
  "example_combiner_stats = \<lparr>duplicate_answers = 0, total_combined = 0\<rparr>"

section \<open>Example run of \<open>parse_answers\<close>\<close>

text \<open>
  A clock, a segment parser that finds no answer, and fresh statistics; the limit on the
  digits of \<open>int(s)\<close> is the default one.
\<close>

definition example_clock :: py_clock where
  "example_clock =
     \<lparr>now_isoformat = ''2024-01-01T00:00:00'', round3 = (\<lambda>x. x), int_max_str_digits = 4300\<rparr>"

definition example_parse_segment :: "(unit, unit) segment_parser" where
  "example_parse_segment st n s = (Inr None, st)"

definition example_parser_stats :: "(unit, unit) parser_stats" where
  "example_parser_stats =
     \<lparr>total_segments = 0, successfully_parsed = 0, format_distribution = [],
      parsing_errors = [], low_confidence_answers = [], unparseable_segments = []\<rparr>"

section \<open>Evaluation of the string functions\<close>

lemmas str_eval = upper_def lower_def upper_char_def lower_char_def ascii_lowercase_def
  ascii_uppercase_def is_space_def whitespace_def

section \<open>Properties of the letter-to-index mapper\<close>

lemma remdups_snoc: "remdups (xs @ [x]) = remdups (filter (\<lambda>y. y \<noteq> x) xs) @ [x]"
  by (induction xs) auto

lemma unique_loop_eq:
  "unique_loop seen acc xs = acc @ rev (remdups (rev (filter (\<lambda>x. x \<notin> seen) xs)))"
proof (induction xs arbitrary: seen acc)
  case Nil
  then show ?case by simp
next
  case (Cons x xs)
  show ?case
  proof (cases "x \<in> seen")
    case True
    then show ?thesis using Cons.IH by simp
  next
    case False
    have "filter (\<lambda>y. y \<noteq> x) (rev (filter (\<lambda>y. y \<notin> seen) xs))
            = rev (filter (\<lambda>y. y \<notin> insert x seen) xs)"
      by (simp add: rev_filter conj_commute)
    then show ?thesis using False Cons.IH[of "insert x seen" "acc @ [x]"]
      by (simp add: remdups_snoc)
  qed
qed

lemma extract_answer_letters_eq:
  "extract_answer_letters s = rev (remdups (rev (findall_A_E (upper s))))"
  by (simp add: extract_answer_letters_def Let_def unique_loop_eq)

lemma check_index_bounds_eq:
  "check_index_bounds n (iss, c) idxs =
     (iss @ map (\<lambda>i. IndexExceeds i n) (filter (\<lambda>i. i \<ge> n) idxs),
      c * (3 / 10) ^ length (filter (\<lambda>i. i \<ge> n) idxs))"
  by (induction idxs arbitrary: iss c) (auto simp: algebra_simps)

lemma letters_A_E: "set (extract_answer_letters s) \<subseteq> set ''ABCDE''"
  unfolding extract_answer_letters_eq findall_A_E_def by auto

lemma letter_index_A_E:
  assumes "L \<in> set ''ABCDE''"
  shows "letter_index L = of_char L - of_char (CHR ''A'')"
proof -
  from assms consider "L = CHR ''A''" | "L = CHR ''B''" | "L = CHR ''C''" | "L = CHR ''D''"
    | "L = CHR ''E''"
    by auto
  then have "upper_char L = L"
    by cases (simp_all add: upper_char_def ascii_lowercase_def ascii_uppercase_def)
  then show ?thesis by (simp add: letter_index_def)
qed

text \<open>
  Claim C2. When the letter extractor finds a letter in the raw answer text, the
  letters are the letters \<open>A\<close> to \<open>E\<close> of the upper-cased text, without duplicates and
  in the order of their first occurrence; the indices are \<open>ord(L) - ord('A')\<close> for
  these letters; the issue list starts with one out-of-bounds issue for every index
  that is at least the number of options (and holds at most the low-similarity issue
  after them); and the confidence is \<open>0.3\<close> to the power of the number of such indices,
  times the similarity of the selected options when some index is in bounds.
\<close>

theorem C2_letter_mapping:
  assumes "extract_answer_letters answer_text \<noteq> []"
  shows "let letters = extract_answer_letters answer_text;
             r = process_extracted_answer ratio answer_text options method_name;
             n = length options;
             out_of_bounds = filter (\<lambda>i. i \<ge> n) (correct_answers r);
             in_bounds = filter (\<lambda>i. i < n) (correct_answers r)
         in letters = rev (remdups (rev (findall_A_E (upper answer_text))))
          \<and> set letters \<subseteq> set ''ABCDE''
          \<and> correct_answers r = map (\<lambda>L. of_char L - of_char (CHR ''A'')) letters
          \<and> (\<exists>rest. mapping_issues r = map (\<lambda>i. IndexExceeds i n) out_of_bounds @ rest
                    \<and> (rest = [] \<or> rest = [LowSimilarity]))
          \<and> validation_confidence r =
               (3 / 10) ^ length out_of_bounds
               * (if in_bounds = [] then 1
                  else calculate_text_similarity ratio answer_text
                         (map (\<lambda>i. snd (options ! i)) in_bounds))"
proof -
  have idx: "map letter_index (extract_answer_letters answer_text)
           = map (\<lambda>L. of_char L - of_char (CHR ''A'')) (extract_answer_letters answer_text)"
    using letters_A_E[of answer_text] by (intro map_cong[OF refl] letter_index_A_E) auto
  show ?thesis
    using assms letters_A_E[of answer_text]
    unfolding Let_def process_extracted_answer_def validate_answer_mapping_def
      check_index_bounds_eq idx
    by (simp add: extract_answer_letters_eq[symmetric] del: set_simps)
qed

lemma letters_A_c_a: "extract_answer_letters ''A, c, a'' \<noteq> []"
  by (simp add: extract_answer_letters_def findall_A_E_def str_eval)

theorem C2_letter_mapping_witness:
  "extract_answer_letters ''A, c, a'' \<noteq> [] \<and>
   (let letters = extract_answer_letters ''A, c, a'';
        r = process_extracted_answer (\<lambda>a b. 1) ''A, c, a''
              [(''A'', ''Use S3''), (''B'', ''Use EC2'')] ''pattern_1'';
        n = length [(''A'', ''Use S3''), (''B'', ''Use EC2'')];
        out_of_bounds = filter (\<lambda>i. i \<ge> n) (correct_answers r);
        in_bounds = filter (\<lambda>i. i < n) (correct_answers r)
    in letters = rev (remdups (rev (findall_A_E (upper ''A, c, a''))))
     \<and> set letters \<subseteq> set ''ABCDE''
     \<and> correct_answers r = map (\<lambda>L. of_char L - of_char (CHR ''A'')) letters
     \<and> (\<exists>rest. mapping_issues r = map (\<lambda>i. IndexExceeds i n) out_of_bounds @ rest
               \<and> (rest = [] \<or> rest = [LowSimilarity]))
     \<and> validation_confidence r =
          (3 / 10) ^ length out_of_bounds
          * (if in_bounds = [] then 1
             else calculate_text_similarity (\<lambda>a b. 1) ''A, c, a''
                    (map (\<lambda>i. snd ([(''A'', ''Use S3''), (''B'', ''Use EC2'')] ! i)) in_bounds)))"
  using letters_A_c_a
    C2_letter_mapping[OF letters_A_c_a, of "\<lambda>a b. 1" "[(''A'', ''Use S3''), (''B'', ''Use EC2'')]"
      "''pattern_1''"]
  by (rule conjI)

text \<open>
  Claim C3. The confidence of the fuzzy-match fallback is the similarity plus a fifth of
  the keyword overlap, and nothing bounds the sum by 1: for the answer text \<open>s3\<close> and the
  single option \<open>S3\<close>, where \<open>SequenceMatcher\<close> gives the ratio 1 for the two equal
  lower-cased texts, the confidence of the record is \<open>1.2\<close>.
\<close>

lemma no_letters_s3: "extract_answer_letters ''s3'' = []"
  by (simp add: extract_answer_letters_def findall_A_E_def str_eval)

lemma overlap_s3: "calculate_keyword_overlap ''s3'' ''S3'' = 1"
  by (simp add: calculate_keyword_overlap_def aws_keywords_def str_eval)

theorem C3_fuzzy_confidence_above_one:
  "ratio ''s3'' ''s3'' = 1 \<Longrightarrow>
   validation_confidence (process_extracted_answer ratio ''s3'' [(''A'', ''S3'')] ''unknown'')
     = 6 / 5"
  by (simp add: process_extracted_answer_def no_letters_s3 fuzzy_match_answer_text_def
        best_matches_def final_similarity_def overlap_s3 sort_by_similarity_def enumerate_eq_zip
        lower_def lower_char_def ascii_lowercase_def ascii_uppercase_def)

theorem C3_fuzzy_confidence_above_one_witness:
  "(\<lambda>a b. if a = b then 1 else 0) ''s3'' ''s3'' = (1 :: real) \<and>
   validation_confidence
     (process_extracted_answer (\<lambda>a b. if a = b then 1 else 0) ''s3'' [(''A'', ''S3'')] ''unknown'')
     = 6 / 5"
  using C3_fuzzy_confidence_above_one[of "\<lambda>a b. if a = b then 1 else 0"] by simp

section \<open>Properties of the fuzzy-match fallback and of the review flag\<close>

lemma flag_iff:
  "flag_for_manual_review a t =
     (validation_confidence a < t \<or> mapping_issues a \<noteq> [] \<or> mapping_method a = ''fuzzy_text_match''
      \<or> mapping_method a = ''no_match_found'' \<or> correct_answers a = [])"
  by (simp add: flag_for_manual_review_def)

lemma enumerate_nth: "enumerate 0 xs = map (\<lambda>i. (i, xs ! i)) [0..<length xs]"
  by (rule nth_equalityI) (simp_all add: nth_enumerate_eq)

lemma best_matches_eq:
  "best_matches ratio a opts =
     map (\<lambda>j. \<lparr>fm_index = j, fm_similarity = final_similarity ratio a (snd (opts ! j)),
                fm_option_text = snd (opts ! j)\<rparr>)
       (filter (\<lambda>j. final_similarity ratio a (snd (opts ! j)) > 4 / 10) [0..<length opts])"
  by (simp add: best_matches_def enumerate_nth filter_map comp_def case_prod_beta)

lemma hd_insort_key:
  "hd (insort_key f x ys) = (if ys = [] \<or> f x \<le> f (hd ys) then x else hd ys)"
  by (cases ys) auto

lemma sort_key_hd_split:
  "xs \<noteq> [] \<Longrightarrow>
   \<exists>ys zs. xs = ys @ hd (sort_key f xs) # zs
        \<and> (\<forall>y\<in>set ys. f (hd (sort_key f xs)) < f y)
        \<and> (\<forall>z\<in>set zs. f (hd (sort_key f xs)) \<le> f z)"
proof (induction xs)
  case Nil
  then show ?case by simp
next
  case (Cons x xs)
  show ?case
  proof (cases "xs = []")
    case True
    then show ?thesis by (intro exI[of _ "[]"]) simp
  next
    case False
    from Cons.IH[OF False] obtain ys zs where
      split: "xs = ys @ hd (sort_key f xs) # zs"
      and before: "\<forall>y\<in>set ys. f (hd (sort_key f xs)) < f y"
      and after: "\<forall>z\<in>set zs. f (hd (sort_key f xs)) \<le> f z"
      by blast
    have ne: "sort_key f xs \<noteq> []" using False by (metis length_0_conv length_sort)
    show ?thesis
    proof (cases "f x \<le> f (hd (sort_key f xs))")
      case True
      then have h: "hd (sort_key f (x # xs)) = x" by (simp add: hd_insort_key)
      have "\<forall>z\<in>set xs. f x \<le> f z"
        using True before after split
        by (metis Un_iff insert_iff le_less_trans less_imp_le list.set(2) order_trans set_append)
      then show ?thesis unfolding h by (intro exI[of _ "[]"] exI[of _ xs]) simp
    next
      case nle: False
      then have h: "hd (sort_key f (x # xs)) = hd (sort_key f xs)" using ne by (simp add: hd_insort_key)
      show ?thesis unfolding h
        using split before after nle
        by (intro exI[of _ "x # ys"] exI[of _ zs]) auto
    qed
  qed
qed


lemma sort_by_similarity_Nil: "(sort_by_similarity ms = []) = (ms = [])"
  by (metis length_0_conv length_sort sort_by_similarity_def)

lemma upt_filter_split:
  assumes "filter P [0..<n] = ys @ i # zs"
  shows "i < n \<and> P i \<and> (\<forall>j<i. P j \<longrightarrow> j \<in> set ys) \<and> (\<forall>j<n. P j \<longrightarrow> j \<in> set ys \<or> j = i \<or> j \<in> set zs)"
proof -
  have mem: "\<And>j. j \<in> set (filter P [0..<n]) \<longleftrightarrow> j < n \<and> P j" by auto
  have i: "i < n \<and> P i" using mem[of i] assms by simp
  have all: "\<forall>j<n. P j \<longrightarrow> j \<in> set ys \<or> j = i \<or> j \<in> set zs"
    using mem assms by auto
  have srt: "sorted (ys @ i # zs)" using assms by (metis sorted_wrt_filter sorted_upt)
  have dst: "distinct (ys @ i # zs)" using assms by (metis distinct_filter distinct_upt)
  have "\<forall>j<i. P j \<longrightarrow> j \<in> set ys"
  proof (intro allI impI)
    fix j assume ji: "j < i" and pj: "P j"
    have jn: "j < n" using ji i by simp
    have disj: "j \<in> set ys \<or> j = i \<or> j \<in> set zs" using all jn pj by blast
    have nz: "j \<notin> set zs" using srt ji by (auto simp: sorted_append)
    show "j \<in> set ys" using disj nz ji by auto
  qed
  then show ?thesis using i all by blast
qed

lemma fuzzy_best:
  fixes ratio a opts
  defines "score \<equiv> \<lambda>j. final_similarity ratio a (snd (opts ! j))"
  assumes ne: "best_matches ratio a opts \<noteq> []"
  shows "\<exists>i<length opts. fm_index (hd (sort_by_similarity (best_matches ratio a opts))) = i
          \<and> fm_similarity (hd (sort_by_similarity (best_matches ratio a opts))) = score i
          \<and> score i > 4 / 10
          \<and> (\<forall>j<length opts. score j > 4 / 10 \<longrightarrow> score j \<le> score i)
          \<and> (\<forall>j<i. score j > 4 / 10 \<longrightarrow> score j < score i)"
proof -
  let ?P = "\<lambda>j. score j > 4 / 10"
  let ?g = "\<lambda>j. \<lparr>fm_index = j, fm_similarity = score j, fm_option_text = snd (opts ! j)\<rparr>"
  let ?ms = "best_matches ratio a opts"
  let ?b = "hd (sort_by_similarity ?ms)"
  have ms: "?ms = map ?g (filter ?P [0..<length opts])"
    unfolding score_def by (rule best_matches_eq)
  from sort_key_hd_split[OF ne, of "\<lambda>m. - fm_similarity m"] obtain ys zs where
    split: "?ms = ys @ ?b # zs"
    and before: "\<forall>y\<in>set ys. fm_similarity y < fm_similarity ?b"
    and after: "\<forall>z\<in>set zs. fm_similarity z \<le> fm_similarity ?b"
    unfolding sort_by_similarity_def by auto
  from split ms obtain js i ks where
    idx: "filter ?P [0..<length opts] = js @ i # ks"
    and ys: "ys = map ?g js" and b: "?b = ?g i" and zs: "zs = map ?g ks"
    by (auto simp: map_eq_append_conv map_eq_Cons_conv)
  from upt_filter_split[OF idx] have
    i: "i < length opts" "?P i"
    and lt: "\<forall>j<i. ?P j \<longrightarrow> j \<in> set js"
    and all: "\<forall>j<length opts. ?P j \<longrightarrow> j \<in> set js \<or> j = i \<or> j \<in> set ks"
    by blast+
  have sim_b: "fm_similarity ?b = score i" and ind_b: "fm_index ?b = i" using b by simp_all
  have b1: "\<forall>j\<in>set js. score j < score i" using before ys sim_b by auto
  have b2: "\<forall>j\<in>set ks. score j \<le> score i" using after zs sim_b by auto
  have "\<forall>j<length opts. ?P j \<longrightarrow> score j \<le> score i"
    using all b1 b2 by (metis less_imp_le order_refl)
  moreover have "\<forall>j<i. ?P j \<longrightarrow> score j < score i" using lt b1 by blast
  ultimately show ?thesis using i sim_b ind_b by blast
qed

lemma best_matches_Nil:
  "(best_matches ratio a opts = []) =
     (\<forall>j<length opts. \<not> final_similarity ratio a (snd (opts ! j)) > 4 / 10)"
  by (auto simp: best_matches_eq filter_empty_conv)

text \<open>
  Claim C7. When the letter extractor finds no letter, every option is
  scored by the string similarity plus a fifth of the keyword overlap. If no score
  exceeds \<open>0.4\<close>, the index list is empty and the method is \<open>no_match_found\<close>. Otherwise
  the result holds the one index of the first option of highest score, and the method
  \<open>fuzzy_text_match\<close>. In both cases the record is flagged for manual review.
\<close>

theorem C7_fuzzy_fallback:
  assumes "extract_answer_letters answer_text = []"
  shows "let r = process_extracted_answer ratio answer_text options method_name;
             score = (\<lambda>j. ratio (lower answer_text) (lower (snd (options ! j)))
                          + calculate_keyword_overlap answer_text (snd (options ! j)) * (2 / 10))
         in ((\<forall>j<length options. \<not> score j > 4 / 10) \<longrightarrow>
               correct_answers r = []
               \<and> mapping_method r = ''no_match_found'')
          \<and> ((\<exists>j<length options. score j > 4 / 10) \<longrightarrow>
               (\<exists>i<length options. correct_answers r = [i]
                  \<and> score i > 4 / 10
                  \<and> (\<forall>j<length options. score j > 4 / 10 \<longrightarrow> score j \<le> score i)
                  \<and> (\<forall>j<i. score j > 4 / 10 \<longrightarrow> score j < score i)
                  \<and> mapping_method r = ''fuzzy_text_match''))
          \<and> flag_for_manual_review r (7 / 10)"
proof -
  let ?ms = "best_matches ratio answer_text options"
  have r: "process_extracted_answer ratio answer_text options method_name
           = fuzzy_match_answer_text ratio answer_text options"
    using assms by (simp add: process_extracted_answer_def)
  show ?thesis
  proof (cases "?ms = []")
    case True
    then have none: "\<forall>j<length options. \<not> final_similarity ratio answer_text (snd (options ! j)) > 4 / 10"
      by (simp add: best_matches_Nil)
    have "sort_by_similarity ?ms = []" using True by (simp add: sort_by_similarity_Nil)
    then show ?thesis using none
      unfolding Let_def r by (simp add: fuzzy_match_answer_text_def flag_iff final_similarity_def)
  next
    case False
    then have some: "\<exists>j<length options. final_similarity ratio answer_text (snd (options ! j)) > 4 / 10"
      by (simp add: best_matches_Nil)
    from False obtain b bs where sorted: "sort_by_similarity ?ms = b # bs"
      by (metis sort_by_similarity_Nil list.exhaust)
    then have hd: "hd (sort_by_similarity ?ms) = b" by simp
    from fuzzy_best[OF False] hd show ?thesis
      unfolding Let_def r using sorted some
      by (simp add: fuzzy_match_answer_text_def flag_iff final_similarity_def)
  qed
qed

theorem C7_fuzzy_fallback_witness:
  "extract_answer_letters ''s3'' = [] \<and>
   (let r = process_extracted_answer (\<lambda>a b. if a = b then 1 else 0) ''s3'' [(''A'', ''S3'')] ''unknown'';
        score = (\<lambda>j. (\<lambda>a b. if a = b then 1 else 0) (lower ''s3'') (lower (snd ([(''A'', ''S3'')] ! j)))
                     + calculate_keyword_overlap ''s3'' (snd ([(''A'', ''S3'')] ! j)) * (2 / 10))
    in ((\<forall>j<length [(''A'', ''S3'')]. \<not> score j > 4 / 10) \<longrightarrow>
          correct_answers r = []
          \<and> mapping_method r = ''no_match_found'')
     \<and> ((\<exists>j<length [(''A'', ''S3'')]. score j > 4 / 10) \<longrightarrow>
          (\<exists>i<length [(''A'', ''S3'')]. correct_answers r = [i]
             \<and> score i > 4 / 10
             \<and> (\<forall>j<length [(''A'', ''S3'')]. score j > 4 / 10 \<longrightarrow> score j \<le> score i)
             \<and> (\<forall>j<i. score j > 4 / 10 \<longrightarrow> score j < score i)
             \<and> mapping_method r = ''fuzzy_text_match''))
     \<and> flag_for_manual_review r (7 / 10))"
  using no_letters_s3
    C7_fuzzy_fallback[OF no_letters_s3, of "\<lambda>a b. if a = b then 1 else 0" "[(''A'', ''S3'')]" "''unknown''"]
  by (rule conjI)

text \<open>
  The claim as it is written fails where no option scores above the threshold (here:
  no option at all, so no similarity is computed): the result is not marked with the
  fuzzy-match method.
\<close>

theorem C7_method_counterexample:
  "extract_answer_letters ''s3'' = [] \<and>
   mapping_method (process_extracted_answer (\<lambda>a b. 0) ''s3'' [] ''unknown'') \<noteq> ''fuzzy_text_match''"
  by (simp add: process_extracted_answer_def no_letters_s3 fuzzy_match_answer_text_def
        best_matches_def sort_by_similarity_def enumerate_eq_zip)

text \<open>
  Claim C10. An answer record of the V2 answer parser has \<open>requires_manual_review\<close> false
  exactly when its confidence is at least \<open>0.7\<close>, its issue list is empty, its mapping
  method is neither \<open>fuzzy_text_match\<close> nor \<open>no_match_found\<close>, and its index list is not
  empty.
\<close>

theorem C10_review_flag:
  "parse_question_answer ratio search extract_explanation detected_format q pdf_content = Some r \<Longrightarrow>
   (requires_manual_review r = False) =
     (validation_confidence r \<ge> 7 / 10 \<and> mapping_issues r = []
      \<and> mapping_method r \<noteq> ''fuzzy_text_match'' \<and> mapping_method r \<noteq> ''no_match_found''
      \<and> correct_answers r \<noteq> [])"
  unfolding parse_question_answer_def
  by (auto simp: flag_iff Let_def simp del: list.inject split: option.splits)

lemma example_section:
  "find_question_section None ''What is it?'' ''1. What is it? Answer: A''
     = Some ''What is it? Answer: A''"
  by (simp add: find_question_section_def py_find_def strip_def collapse_whitespace_def slice_def
        str_eval)

lemma example_parse:
  "\<exists>r. parse_question_answer (\<lambda>a b. 1) (\<lambda>i s. if i = 0 then Some ''A'' else None) (\<lambda>s. [])
        None
        \<lparr>q_question_id = ''q1'', q_question_number = 1, q_question_text = ''What is it?'',
         q_options = [(''A'', ''Yes''), (''B'', ''No'')]\<rparr>
        ''1. What is it? Answer: A'' = Some r"
  by (simp add: parse_question_answer_def example_section extract_answer_multiple_patterns_def
        upt_rec Let_def)

theorem C10_review_flag_witness:
  "\<exists>r. parse_question_answer (\<lambda>a b. 1) (\<lambda>i s. if i = 0 then Some ''A'' else None) (\<lambda>s. [])
        None
        \<lparr>q_question_id = ''q1'', q_question_number = 1, q_question_text = ''What is it?'',
         q_options = [(''A'', ''Yes''), (''B'', ''No'')]\<rparr>
        ''1. What is it? Answer: A'' = Some r
      \<and> (requires_manual_review r = False) =
          (validation_confidence r \<ge> 7 / 10 \<and> mapping_issues r = []
           \<and> mapping_method r \<noteq> ''fuzzy_text_match'' \<and> mapping_method r \<noteq> ''no_match_found''
           \<and> correct_answers r \<noteq> [])"
proof -
  from example_parse obtain r where
    h: "parse_question_answer (\<lambda>a b. 1) (\<lambda>i s. if i = 0 then Some ''A'' else None) (\<lambda>s. [])
          None
          \<lparr>q_question_id = ''q1'', q_question_number = 1, q_question_text = ''What is it?'',
           q_options = [(''A'', ''Yes''), (''B'', ''No'')]\<rparr>
          ''1. What is it? Answer: A'' = Some r"
    by blast
  from C10_review_flag[OF h] h show ?thesis by blast
qed

section \<open>Properties of the combiner\<close>

lemma v2_add_enhanced_loop: "v2_add_enhanced c xs = enhanced_loop v2_answer_num c xs"
  by (induction xs arbitrary: c) (simp_all add: enhanced_loop_def)

lemma v2_add_aggressive_loop: "v2_add_aggressive (c, d) xs = aggressive_loop v2_answer_num (c, d) xs"
  by (induction xs arbitrary: c d) (simp_all add: aggressive_loop_def)

lemma add_enhanced_loop:
  "\<forall>a\<in>set xs. ae_answer_number a \<noteq> None \<Longrightarrow> add_enhanced c xs = Inr (enhanced_loop v1_num c xs)"
  by (induction xs arbitrary: c) (auto simp: enhanced_loop_def v1_num_def)

lemma add_aggressive_loop:
  "\<forall>a\<in>set xs. ae_answer_number a \<noteq> None \<Longrightarrow> add_aggressive (c, d) xs = Inr (aggressive_loop v1_num (c, d) xs)"
  by (induction xs arbitrary: c d) (auto simp: aggressive_loop_def v1_num_def)

lemma enhanced_loop_map_of:
  "k \<in> kf ` set xs \<Longrightarrow>
     \<exists>a\<in>set xs. kf a = k \<and> map_of (enhanced_loop kf c xs) k = Some (a\<lparr>ae_source := Some ''enhanced''\<rparr>)"
proof (induction xs arbitrary: c rule: rev_induct)
  case Nil
  then show ?case by simp
next
  case (snoc x xs)
  show ?case
  proof (cases "kf x = k")
    case True
    then show ?thesis by (auto simp: enhanced_loop_def update_conv')
  next
    case False
    then have "k \<in> kf ` set xs" using snoc.prems by auto
    from snoc.IH[OF this, of c] False show ?thesis by (auto simp: enhanced_loop_def update_conv')
  qed
qed

lemma enhanced_loop_keys: "fst ` set (enhanced_loop kf c xs) = fst ` set c \<union> kf ` set xs"
proof (induction xs arbitrary: c)
  case Nil then show ?case by (simp add: enhanced_loop_def)
next
  case (Cons x xs)
  have "enhanced_loop kf c (x # xs)
          = enhanced_loop kf (AList.update (kf x) (x\<lparr>ae_source := Some ''enhanced''\<rparr>) c) xs"
    by (simp add: enhanced_loop_def)
  then show ?case
    using Cons[of "AList.update (kf x) (x\<lparr>ae_source := Some ''enhanced''\<rparr>) c"]
    by (simp add: dom_update Un_commute insert_commute)
qed

lemma enhanced_loop_distinct: "distinct (map fst c) \<Longrightarrow> distinct (map fst (enhanced_loop kf c xs))"
  by (induction xs arbitrary: c) (simp_all add: enhanced_loop_def distinct_update)

lemma update_new_length: "map_of c k = None \<Longrightarrow> length (AList.update k v c) = Suc (length c)"
  by (induction c) (auto split: if_splits)

lemma aggressive_loop_Nil: "aggressive_loop kf cd [] = cd"
  by (simp add: aggressive_loop_def)

lemma aggressive_loop_Cons:
  "aggressive_loop kf (c, d) (x # xs) =
     (if map_of c (kf x) \<noteq> None then aggressive_loop kf (c, d + 1) xs
      else aggressive_loop kf (AList.update (kf x) (x\<lparr>ae_source := Some ''aggressive''\<rparr>) c, d) xs)"
  by (simp add: aggressive_loop_def)

lemma aggressive_loop_distinct:
  "distinct (map fst c) \<Longrightarrow> distinct (map fst (fst (aggressive_loop kf (c, d) xs)))"
  by (induction xs arbitrary: c d) (simp_all add: aggressive_loop_Nil aggressive_loop_Cons distinct_update)

lemma aggressive_loop_count:
  "snd (aggressive_loop kf (c, d) xs) + length (fst (aggressive_loop kf (c, d) xs))
     = d + length c + length xs"
  by (induction xs arbitrary: c d)
     (simp_all add: aggressive_loop_Nil aggressive_loop_Cons update_new_length)

lemma aggressive_loop_keys:
  "fst ` set (fst (aggressive_loop kf (c, d) xs)) = fst ` set c \<union> kf ` set xs"
proof (induction xs arbitrary: c d)
  case Nil
  then show ?case by (simp add: aggressive_loop_Nil)
next
  case (Cons x xs)
  show ?case
  proof (cases "map_of c (kf x) = None")
    case True
    then show ?thesis using Cons[of "AList.update (kf x) (x\<lparr>ae_source := Some ''aggressive''\<rparr>) c" d]
      by (simp add: aggressive_loop_Cons dom_update Un_commute insert_commute)
  next
    case False
    then have "kf x \<in> fst ` set c" by (metis domIff dom_map_of_conv_image_fst)
    then show ?thesis using False Cons[of c "d + 1"]
      by (simp add: aggressive_loop_Cons insert_absorb)
  qed
qed

lemma aggressive_loop_keeps:
  "map_of c k = Some v \<Longrightarrow> map_of (fst (aggressive_loop kf (c, d) xs)) k = Some v"
proof (induction xs arbitrary: c d)
  case Nil
  then show ?case by (simp add: aggressive_loop_Nil)
next
  case (Cons x xs)
  show ?case
  proof (cases "map_of c (kf x) = None")
    case True
    then have "kf x \<noteq> k" using Cons.prems by auto
    then have "map_of (AList.update (kf x) (x\<lparr>ae_source := Some ''aggressive''\<rparr>) c) k = Some v"
      using Cons.prems by (simp add: update_conv')
    from Cons.IH[OF this] True show ?thesis by (simp add: aggressive_loop_Cons)
  next
    case False
    then show ?thesis using Cons.IH[OF Cons.prems] by (simp add: aggressive_loop_Cons)
  qed
qed

lemma aggressive_loop_adds:
  "map_of c k = None \<Longrightarrow> k \<in> kf ` set xs \<Longrightarrow>
     \<exists>a\<in>set xs. kf a = k
        \<and> map_of (fst (aggressive_loop kf (c, d) xs)) k = Some (a\<lparr>ae_source := Some ''aggressive''\<rparr>)"
proof (induction xs arbitrary: c d)
  case Nil
  then show ?case by simp
next
  case (Cons x xs)
  show ?case
  proof (cases "kf x = k")
    case True
    then have "map_of (AList.update (kf x) (x\<lparr>ae_source := Some ''aggressive''\<rparr>) c) k
                 = Some (x\<lparr>ae_source := Some ''aggressive''\<rparr>)"
      by (simp add: update_conv')
    from aggressive_loop_keeps[OF this] True Cons.prems(1) show ?thesis
      by (simp add: aggressive_loop_Cons)
  next
    case False
    then have mem: "k \<in> kf ` set xs" using Cons.prems(2) by auto
    show ?thesis
    proof (cases "map_of c (kf x) = None")
      case True
      have "map_of (AList.update (kf x) (x\<lparr>ae_source := Some ''aggressive''\<rparr>) c) k = None"
        using False Cons.prems(1) by (simp add: update_conv')
      from Cons.IH[OF this mem] True show ?thesis by (simp add: aggressive_loop_Cons)
    next
      case nn: False
      from Cons.IH[OF Cons.prems(1) mem] nn show ?thesis by (simp add: aggressive_loop_Cons)
    qed
  qed
qed

lemma aggressive_loop_duplicates:
  "S \<subseteq> dom (map_of c) \<Longrightarrow>
     d + length (filter (\<lambda>a. kf a \<in> S) xs) \<le> snd (aggressive_loop kf (c, d) xs)"
proof (induction xs arbitrary: c d)
  case Nil
  then show ?case by (simp add: aggressive_loop_Nil)
next
  case (Cons x xs)
  show ?case
  proof (cases "map_of c (kf x) = None")
    case True
    then have notin: "kf x \<notin> S" using Cons.prems by auto
    have "S \<subseteq> dom (map_of (AList.update (kf x) (x\<lparr>ae_source := Some ''aggressive''\<rparr>) c))"
      using Cons.prems by (auto simp: update_conv')
    from Cons.IH[OF this, of d] True notin show ?thesis by (simp add: aggressive_loop_Cons)
  next
    case False
    from Cons.IH[OF Cons.prems, of "d + 1"] False show ?thesis
      by (simp add: aggressive_loop_Cons)
  qed
qed

lemma v2_merge_eq:
  "v2_merge_answer_sources stats enhanced aggressive =
     (let r = aggressive_loop v2_answer_num
                (enhanced_loop v2_answer_num [] enhanced, duplicate_answers stats) aggressive
      in (fst r, stats\<lparr>duplicate_answers := snd r, total_combined := length (fst r)\<rparr>))"
  by (simp add: v2_merge_answer_sources_def v2_add_enhanced_loop v2_add_aggressive_loop Let_def
        case_prod_beta)

lemma merge_eq:
  assumes "\<forall>a\<in>set enhanced \<union> set aggressive. ae_answer_number a \<noteq> None"
  shows "merge_answer_sources stats enhanced aggressive =
     (let r = aggressive_loop v1_num (enhanced_loop v1_num [] enhanced, duplicate_answers stats)
                aggressive
      in Inr (fst r, stats\<lparr>duplicate_answers := snd r, total_combined := length (fst r)\<rparr>))"
proof -
  have e: "add_enhanced [] enhanced = Inr (enhanced_loop v1_num [] enhanced)"
    using assms by (intro add_enhanced_loop) auto
  have a: "add_aggressive (c, d) aggressive = Inr (aggressive_loop v1_num (c, d) aggressive)" for c d
    using assms by (intro add_aggressive_loop) auto
  show ?thesis by (simp add: merge_answer_sources_def e a Let_def case_prod_beta)
qed

lemma merge_loops:
  fixes kf :: "'a answer_entry_scheme \<Rightarrow> int" and enhanced aggressive d
  defines "r \<equiv> aggressive_loop kf (enhanced_loop kf [] enhanced, d) aggressive"
  shows "(\<forall>k\<in>kf ` set enhanced. \<exists>a\<in>set enhanced. kf a = k
            \<and> map_of (fst r) k = Some (a\<lparr>ae_source := Some ''enhanced''\<rparr>))
       \<and> (\<forall>k\<in>kf ` set aggressive - kf ` set enhanced. \<exists>a\<in>set aggressive. kf a = k
            \<and> map_of (fst r) k = Some (a\<lparr>ae_source := Some ''aggressive''\<rparr>))
       \<and> fst ` set (fst r) = kf ` set enhanced \<union> kf ` set aggressive
       \<and> d + length (filter (\<lambda>a. kf a \<in> kf ` set enhanced) aggressive) \<le> snd r
       \<and> snd r + length (fst r) = d + card (kf ` set enhanced) + length aggressive
       \<and> length (fst r) = card (kf ` set enhanced \<union> kf ` set aggressive)"
proof -
  let ?e = "enhanced_loop kf [] enhanced"
  have keys_e: "fst ` set ?e = kf ` set enhanced" by (simp add: enhanced_loop_keys)
  have dist_e: "distinct (map fst ?e)" by (simp add: enhanced_loop_distinct)
  have len_e: "length ?e = card (kf ` set enhanced)"
    using dist_e keys_e by (metis distinct_card length_map set_map)
  have dom_e: "dom (map_of ?e) = kf ` set enhanced"
    using keys_e by (simp add: dom_map_of_conv_image_fst)
  have keys_r: "fst ` set (fst r) = kf ` set enhanced \<union> kf ` set aggressive"
    unfolding r_def by (simp add: aggressive_loop_keys keys_e)
  have dist_r: "distinct (map fst (fst r))"
    unfolding r_def by (rule aggressive_loop_distinct[OF dist_e])
  have len_r: "length (fst r) = card (kf ` set enhanced \<union> kf ` set aggressive)"
    using dist_r keys_r by (metis distinct_card length_map set_map)
  have p1: "\<forall>k\<in>kf ` set enhanced. \<exists>a\<in>set enhanced. kf a = k
            \<and> map_of (fst r) k = Some (a\<lparr>ae_source := Some ''enhanced''\<rparr>)"
  proof
    fix k assume "k \<in> kf ` set enhanced"
    from enhanced_loop_map_of[OF this, of "[]"] obtain a where
      a: "a \<in> set enhanced" "kf a = k" "map_of ?e k = Some (a\<lparr>ae_source := Some ''enhanced''\<rparr>)"
      by blast
    from aggressive_loop_keeps[OF a(3), of kf d aggressive] a(1,2)
    show "\<exists>a\<in>set enhanced. kf a = k \<and> map_of (fst r) k = Some (a\<lparr>ae_source := Some ''enhanced''\<rparr>)"
      unfolding r_def by blast
  qed
  have p2: "\<forall>k\<in>kf ` set aggressive - kf ` set enhanced. \<exists>a\<in>set aggressive. kf a = k
            \<and> map_of (fst r) k = Some (a\<lparr>ae_source := Some ''aggressive''\<rparr>)"
  proof
    fix k assume k: "k \<in> kf ` set aggressive - kf ` set enhanced"
    then have "map_of ?e k = None" using dom_e by blast
    from aggressive_loop_adds[OF this, of kf aggressive d] k
    show "\<exists>a\<in>set aggressive. kf a = k \<and> map_of (fst r) k = Some (a\<lparr>ae_source := Some ''aggressive''\<rparr>)"
      unfolding r_def by blast
  qed
  have p4: "d + length (filter (\<lambda>a. kf a \<in> kf ` set enhanced) aggressive) \<le> snd r"
    unfolding r_def by (rule aggressive_loop_duplicates) (simp add: dom_e)
  have p5: "snd r + length (fst r) = d + card (kf ` set enhanced) + length aggressive"
    unfolding r_def using aggressive_loop_count[of kf ?e d aggressive] len_e by simp
  show ?thesis using p1 p2 keys_r p4 p5 len_r by blast
qed

lemma C1_v2:
  "case v2_merge_answer_sources stats enhanced aggressive of (combined, stats') \<Rightarrow>
     (\<forall>k\<in>v2_answer_num ` set enhanced. \<exists>a\<in>set enhanced. v2_answer_num a = k
          \<and> map_of combined k = Some (a\<lparr>ae_source := Some ''enhanced''\<rparr>))
   \<and> (\<forall>k\<in>v2_answer_num ` set aggressive - v2_answer_num ` set enhanced.
          \<exists>a\<in>set aggressive. v2_answer_num a = k
          \<and> map_of combined k = Some (a\<lparr>ae_source := Some ''aggressive''\<rparr>))
   \<and> fst ` set combined = v2_answer_num ` set enhanced \<union> v2_answer_num ` set aggressive
   \<and> duplicate_answers stats
         + length (filter (\<lambda>a. v2_answer_num a \<in> v2_answer_num ` set enhanced) aggressive)
       \<le> duplicate_answers stats'
   \<and> duplicate_answers stats' + total_combined stats'
       = duplicate_answers stats + card (v2_answer_num ` set enhanced) + length aggressive
   \<and> total_combined stats' = card (v2_answer_num ` set enhanced \<union> v2_answer_num ` set aggressive)"
  using merge_loops[of v2_answer_num enhanced "duplicate_answers stats" aggressive]
  by (simp add: v2_merge_eq Let_def)

lemma v1_num_image:
  assumes "\<forall>a\<in>set xs. ae_answer_number a \<noteq> None"
  shows "v1_num ` set xs = {k. \<exists>a\<in>set xs. ae_answer_number a = Some k}"
  using assms by (force simp: v1_num_def image_iff split: option.splits)

lemma v1_num_Some:
  "ae_answer_number a \<noteq> None \<Longrightarrow> (v1_num a = k) = (ae_answer_number a = Some k)"
  by (auto simp: v1_num_def)

lemma C1_v1:
  assumes present: "\<forall>a\<in>set enhanced \<union> set aggressive. ae_answer_number a \<noteq> None"
  shows "\<exists>combined stats'. merge_answer_sources stats enhanced aggressive = Inr (combined, stats')
   \<and> (\<forall>k\<in>{k. \<exists>e\<in>set enhanced. ae_answer_number e = Some k}.
          \<exists>a\<in>set enhanced. ae_answer_number a = Some k
          \<and> map_of combined k = Some (a\<lparr>ae_source := Some ''enhanced''\<rparr>))
   \<and> (\<forall>k\<in>{k. \<exists>g\<in>set aggressive. ae_answer_number g = Some k}
            - {k. \<exists>e\<in>set enhanced. ae_answer_number e = Some k}.
          \<exists>a\<in>set aggressive. ae_answer_number a = Some k
          \<and> map_of combined k = Some (a\<lparr>ae_source := Some ''aggressive''\<rparr>))
   \<and> duplicate_answers stats
         + length (filter (\<lambda>g. \<exists>e\<in>set enhanced. ae_answer_number e = ae_answer_number g) aggressive)
       \<le> duplicate_answers stats'
   \<and> duplicate_answers stats' + total_combined stats'
       = duplicate_answers stats + card {k. \<exists>e\<in>set enhanced. ae_answer_number e = Some k}
         + length aggressive
   \<and> total_combined stats' = length combined"
proof -
  let ?r = "aggressive_loop v1_num (enhanced_loop v1_num [] enhanced, duplicate_answers stats) aggressive"
  have pe: "\<forall>a\<in>set enhanced. ae_answer_number a \<noteq> None"
    and pa: "\<forall>a\<in>set aggressive. ae_answer_number a \<noteq> None"
    using present by auto
  note L = merge_loops[of v1_num enhanced "duplicate_answers stats" aggressive]
  have ie: "v1_num ` set enhanced = {k. \<exists>e\<in>set enhanced. ae_answer_number e = Some k}"
    by (rule v1_num_image[OF pe])
  have ia: "v1_num ` set aggressive = {k. \<exists>e\<in>set aggressive. ae_answer_number e = Some k}"
    by (rule v1_num_image[OF pa])
  have p1: "\<forall>k\<in>{k. \<exists>e\<in>set enhanced. ae_answer_number e = Some k}.
          \<exists>a\<in>set enhanced. ae_answer_number a = Some k
          \<and> map_of (fst ?r) k = Some (a\<lparr>ae_source := Some ''enhanced''\<rparr>)"
  proof
    fix k assume "k \<in> {k. \<exists>e\<in>set enhanced. ae_answer_number e = Some k}"
    then have "k \<in> v1_num ` set enhanced" using ie by simp
    with L obtain a where "a \<in> set enhanced" "v1_num a = k"
      "map_of (fst ?r) k = Some (a\<lparr>ae_source := Some ''enhanced''\<rparr>)" by blast
    then show "\<exists>a\<in>set enhanced. ae_answer_number a = Some k
          \<and> map_of (fst ?r) k = Some (a\<lparr>ae_source := Some ''enhanced''\<rparr>)"
      using pe v1_num_Some by blast
  qed
  have p2: "\<forall>k\<in>{k. \<exists>g\<in>set aggressive. ae_answer_number g = Some k}
            - {k. \<exists>e\<in>set enhanced. ae_answer_number e = Some k}.
          \<exists>a\<in>set aggressive. ae_answer_number a = Some k
          \<and> map_of (fst ?r) k = Some (a\<lparr>ae_source := Some ''aggressive''\<rparr>)"
  proof
    fix k assume "k \<in> {k. \<exists>g\<in>set aggressive. ae_answer_number g = Some k}
            - {k. \<exists>e\<in>set enhanced. ae_answer_number e = Some k}"
    then have "k \<in> v1_num ` set aggressive - v1_num ` set enhanced" using ie ia by simp
    with L obtain a where "a \<in> set aggressive" "v1_num a = k"
      "map_of (fst ?r) k = Some (a\<lparr>ae_source := Some ''aggressive''\<rparr>)" by blast
    then show "\<exists>a\<in>set aggressive. ae_answer_number a = Some k
          \<and> map_of (fst ?r) k = Some (a\<lparr>ae_source := Some ''aggressive''\<rparr>)"
      using pa v1_num_Some by blast
  qed
  have f: "filter (\<lambda>g. \<exists>e\<in>set enhanced. ae_answer_number e = ae_answer_number g) aggressive
         = filter (\<lambda>a. v1_num a \<in> v1_num ` set enhanced) aggressive"
  proof (rule filter_cong[OF refl])
    fix g assume g: "g \<in> set aggressive"
    then obtain k where k: "ae_answer_number g = Some k" using pa by auto
    then have "v1_num g = k" by (simp add: v1_num_def)
    then show "(\<exists>e\<in>set enhanced. ae_answer_number e = ae_answer_number g)
             = (v1_num g \<in> v1_num ` set enhanced)"
      using k ie by auto
  qed
  have p4: "duplicate_answers stats
         + length (filter (\<lambda>g. \<exists>e\<in>set enhanced. ae_answer_number e = ae_answer_number g) aggressive)
       \<le> snd ?r"
    unfolding f using L by blast
  have p5: "snd ?r + length (fst ?r)
       = duplicate_answers stats + card {k. \<exists>e\<in>set enhanced. ae_answer_number e = Some k}
         + length aggressive"
    using L ie by simp
  show ?thesis
    unfolding merge_eq[OF present] Let_def using p1 p2 p4 p5 by simp
qed

text \<open>
  Claim C1. In the merged mapping of either combiner, a number that occurs among the
  enhanced answers is mapped to an enhanced answer with that number, marked
  \<open>enhanced\<close> and otherwise unchanged (its extraction method is the one of the enhanced
  answer), whether or not the aggressive answers hold the number too; a number that
  occurs among the aggressive answers only is mapped to an aggressive answer with that
  number, marked \<open>aggressive\<close>. Every aggressive answer whose number occurs among the
  enhanced answers adds one to the counter of duplicates, and the function returns
  all the same: every aggressive answer is either counted as a duplicate or adds an
  entry. The first combiner reads the number with \<open>answer['answer_number']\<close>, so for it
  this holds when every answer has that key.
\<close>

theorem C1_merge_precedence:
  "(case v2_merge_answer_sources stats enhanced aggressive of (combined, stats') \<Rightarrow>
     (\<forall>k\<in>v2_answer_num ` set enhanced. \<exists>a\<in>set enhanced. v2_answer_num a = k
          \<and> map_of combined k = Some (a\<lparr>ae_source := Some ''enhanced''\<rparr>))
   \<and> (\<forall>k\<in>v2_answer_num ` set aggressive - v2_answer_num ` set enhanced.
          \<exists>a\<in>set aggressive. v2_answer_num a = k
          \<and> map_of combined k = Some (a\<lparr>ae_source := Some ''aggressive''\<rparr>))
   \<and> fst ` set combined = v2_answer_num ` set enhanced \<union> v2_answer_num ` set aggressive
   \<and> duplicate_answers stats
         + length (filter (\<lambda>a. v2_answer_num a \<in> v2_answer_num ` set enhanced) aggressive)
       \<le> duplicate_answers stats'
   \<and> duplicate_answers stats' + total_combined stats'
       = duplicate_answers stats + card (v2_answer_num ` set enhanced) + length aggressive
   \<and> total_combined stats' = card (v2_answer_num ` set enhanced \<union> v2_answer_num ` set aggressive))
 \<and> ((\<forall>a\<in>set enhanced \<union> set aggressive. ae_answer_number a \<noteq> None) \<longrightarrow>
     (\<exists>combined stats'. merge_answer_sources stats enhanced aggressive = Inr (combined, stats')
   \<and> (\<forall>k\<in>{k. \<exists>e\<in>set enhanced. ae_answer_number e = Some k}.
          \<exists>a\<in>set enhanced. ae_answer_number a = Some k
          \<and> map_of combined k = Some (a\<lparr>ae_source := Some ''enhanced''\<rparr>))
   \<and> (\<forall>k\<in>{k. \<exists>g\<in>set aggressive. ae_answer_number g = Some k}
            - {k. \<exists>e\<in>set enhanced. ae_answer_number e = Some k}.
          \<exists>a\<in>set aggressive. ae_answer_number a = Some k
          \<and> map_of combined k = Some (a\<lparr>ae_source := Some ''aggressive''\<rparr>))
   \<and> duplicate_answers stats
         + length (filter (\<lambda>g. \<exists>e\<in>set enhanced. ae_answer_number e = ae_answer_number g) aggressive)
       \<le> duplicate_answers stats'
   \<and> duplicate_answers stats' + total_combined stats'
       = duplicate_answers stats + card {k. \<exists>e\<in>set enhanced. ae_answer_number e = Some k}
         + length aggressive
   \<and> total_combined stats' = length combined))"
  using C1_v2[where stats = stats and enhanced = enhanced and aggressive = aggressive] C1_v1[where stats = stats and enhanced = enhanced and aggressive = aggressive] by blast

lemma example_numbers_present:
  "\<forall>a\<in>set example_enhanced \<union> set example_aggressive. ae_answer_number a \<noteq> None"
  by (simp add: example_enhanced_def example_aggressive_def)

theorem C1_merge_precedence_witness:
  "None \<notin> ae_answer_number ` (set example_enhanced \<union> set example_aggressive)
 \<and> (case v2_merge_answer_sources example_combiner_stats example_enhanced example_aggressive of (combined, stats') \<Rightarrow>
     (\<forall>k\<in>v2_answer_num ` set example_enhanced. \<exists>a\<in>set example_enhanced. v2_answer_num a = k
          \<and> map_of combined k = Some (a\<lparr>ae_source := Some ''enhanced''\<rparr>))
   \<and> (\<forall>k\<in>v2_answer_num ` set example_aggressive - v2_answer_num ` set example_enhanced.
          \<exists>a\<in>set example_aggressive. v2_answer_num a = k
          \<and> map_of combined k = Some (a\<lparr>ae_source := Some ''aggressive''\<rparr>))
   \<and> fst ` set combined = v2_answer_num ` set example_enhanced \<union> v2_answer_num ` set example_aggressive
   \<and> duplicate_answers example_combiner_stats
         + length (filter (\<lambda>a. v2_answer_num a \<in> v2_answer_num ` set example_enhanced) example_aggressive)
       \<le> duplicate_answers stats'
   \<and> duplicate_answers stats' + total_combined stats'
       = duplicate_answers example_combiner_stats + card (v2_answer_num ` set example_enhanced) + length example_aggressive
   \<and> total_combined stats' = card (v2_answer_num ` set example_enhanced \<union> v2_answer_num ` set example_aggressive))
 \<and> (\<exists>combined stats'. merge_answer_sources example_combiner_stats example_enhanced example_aggressive = Inr (combined, stats')
   \<and> (\<forall>k\<in>{k. \<exists>e\<in>set example_enhanced. ae_answer_number e = Some k}.
          \<exists>a\<in>set example_enhanced. ae_answer_number a = Some k
          \<and> map_of combined k = Some (a\<lparr>ae_source := Some ''enhanced''\<rparr>))
   \<and> (\<forall>k\<in>{k. \<exists>g\<in>set example_aggressive. ae_answer_number g = Some k}
            - {k. \<exists>e\<in>set example_enhanced. ae_answer_number e = Some k}.
          \<exists>a\<in>set example_aggressive. ae_answer_number a = Some k
          \<and> map_of combined k = Some (a\<lparr>ae_source := Some ''aggressive''\<rparr>))
   \<and> duplicate_answers example_combiner_stats
         + length (filter (\<lambda>g. \<exists>e\<in>set example_enhanced. ae_answer_number e = ae_answer_number g) example_aggressive)
       \<le> duplicate_answers stats'
   \<and> duplicate_answers stats' + total_combined stats'
       = duplicate_answers example_combiner_stats + card {k. \<exists>e\<in>set example_enhanced. ae_answer_number e = Some k}
         + length example_aggressive
   \<and> total_combined stats' = length combined)"
  (is "?N \<and> ?A \<and> ?B")
proof -
  note run = C1_merge_precedence[where stats = example_combiner_stats
      and enhanced = example_enhanced and aggressive = example_aggressive]
  have n: ?N
    by (simp add: example_enhanced_def example_aggressive_def)
  have a: ?A
    by (rule conjunct1[OF run])
  have b: ?B
    by (rule mp[OF conjunct2[OF run] example_numbers_present])
  show ?thesis
    by (rule conjI[OF n conjI[OF a b]])
qed

section \<open>Properties of the segmenter\<close>
















section \<open>Properties of \<open>parse_answers\<close>\<close>

lemma no_matches_no_segments:
  "question_delimiter_finditer content = [] \<Longrightarrow> segment_by_questions content = []"
  by (simp add: segment_by_questions_def)

text \<open>
  Claim C5. For a document without a match of the delimiter, \<open>parse_answers\<close> does not
  abort: it returns the result structure, with no answer and no segment.
\<close>

theorem C5_zero_matches:
  "question_delimiter_finditer content = [] \<longrightarrow>
     (\<exists>out. parse_answers clock parse_segment stats text_path (Inr content) = Inr out
        \<and> answers out = []
        \<and> md_total_segments (metadata out) = 0
        \<and> total_answers (metadata out) = 0)"
  by (simp add: parse_answers_def no_matches_no_segments create_output_def Let_def
        split: prod.splits)

lemma example_no_delimiter: "question_delimiter_finditer ''no delimiter here'' = []"
  by (simp add: question_delimiter_finditer_def is_digit_def)

theorem C5_zero_matches_witness:
  "question_delimiter_finditer ''no delimiter here'' = [] \<and>
   (\<exists>out. parse_answers example_clock example_parse_segment example_parser_stats
             ''Solution.txt'' (Inr ''no delimiter here'') = Inr out
        \<and> answers out = []
        \<and> md_total_segments (metadata out) = 0
        \<and> total_answers (metadata out) = 0)"
  by (rule conjI[OF example_no_delimiter
        mp[OF C5_zero_matches[where content = "''no delimiter here''" and clock = example_clock
              and parse_segment = example_parse_segment and stats = example_parser_stats
              and text_path = "''Solution.txt''"]
           example_no_delimiter]])

text \<open>
  The claim as it is written fails on such a document: the run returns the result
  structure with zero answers.
\<close>

theorem C5_abort_counterexample:
  "question_delimiter_finditer ''no delimiter here'' = [] \<and>
   parse_answers example_clock example_parse_segment example_parser_stats
     ''Solution.txt'' (Inr ''no delimiter here'')
   = Inr \<lparr>metadata =
            \<lparr>parsing_date = ''2024-01-01T00:00:00'', source_file = ''Solution.txt'',
             md_total_segments = 0, total_answers = 0, parsing_success_rate = 0,
             average_confidence = 0, md_format_distribution = [], low_confidence_count = 0,
             unparseable_count = 0, md_parsing_errors = 0\<rparr>,
          answers = [],
          report = \<lparr>format_breakdown = [], pr_low_confidence_answers = [],
                    pr_unparseable_segments = [], pr_parsing_errors = []\<rparr>\<rparr>"
  by (simp add: question_delimiter_finditer_def is_digit_def parse_answers_def
        segment_by_questions_def create_output_def example_clock_def
        example_parse_segment_def example_parser_stats_def)

text \<open>
  \<open>parse_answers\<close> raises in two cases only: the file cannot be read, or the number of
  a match has more digits than the interpreter converts. When no conversion raises,
  the number of every match is \<open>int_of_digits\<close> of its digits.
\<close>

lemma conversion_error_None:
  "conversion_error max_str_digits ms = None \<Longrightarrow>
   \<forall>m\<in>set ms. py_int max_str_digits (m_group1 m) = Inr (int_of_digits (m_group1 m))"
  by (induction ms) (auto simp: py_int_def split: sum.splits if_splits)

lemma conversion_error_no_limit: "conversion_error 0 ms = None"
  by (induction ms) (simp_all add: py_int_def)

lemma parse_answers_raises:
  "(\<exists>e. parse_answers clock parse_segment stats text_path file = Inl e)
   = (case file of
        Inl e \<Rightarrow> True
      | Inr content \<Rightarrow>
          conversion_error (int_max_str_digits clock) (question_delimiter_finditer content)
            \<noteq> None)"
  by (auto simp: parse_answers_def Let_def split: sum.splits option.splits prod.splits)

section \<open>Properties of the aggressive recoverer\<close>

lemma aggressive_confidence_clamped:
  "\<exists>x. calculate_aggressive_confidence rt a ctx m qt opts = min (max x (1 / 10)) 1"
  unfolding calculate_aggressive_confidence_def Let_def by (rule exI) (rule refl)

lemma aggressive_confidence_bounds:
  "1 / 10 \<le> calculate_aggressive_confidence rt a ctx m qt opts
   \<and> calculate_aggressive_confidence rt a ctx m qt opts \<le> 1"
proof -
  from aggressive_confidence_clamped obtain x where
    "calculate_aggressive_confidence rt a ctx m qt opts = min (max x (1 / 10)) 1" by blast
  then show ?thesis by simp
qed

lemma process_aggressive_match_issues:
  "process_aggressive_match m name = Some a \<Longrightarrow> cand_issues a = []"
  unfolding process_aggressive_match_def Let_def
  by (simp split: if_splits prod.splits) auto

lemma match_loop_pattern_best:
  "pattern_best b \<Longrightarrow> name \<in> set aggressive_patterns \<Longrightarrow>
   pattern_best (match_loop rt ctx qt opts name b ms)"
proof (induction ms arbitrary: b)
  case Nil
  then show ?case by simp
next
  case (Cons m ms)
  show ?case
  proof (cases "process_aggressive_match m name")
    case None
    then show ?thesis using Cons by simp
  next
    case (Some a)
    then have "cand_issues a = []" by (rule process_aggressive_match_issues)
    then have "pattern_best \<lparr>best_answer = Some a,
        best_confidence = calculate_aggressive_confidence rt a ctx name qt opts,
        best_method = Some name\<rparr>"
      using Cons.prems(2) by (simp add: pattern_best_def)
    then show ?thesis using Some Cons by (simp add: Let_def)
  qed
qed

lemma pattern_loop_pattern_best:
  "pattern_best b \<Longrightarrow> set names \<subseteq> set aggressive_patterns \<Longrightarrow>
   pattern_best (pattern_loop rt ctx qt opts b names)"
  by (induction names arbitrary: b) (simp_all add: match_loop_pattern_best)

lemma pattern_extraction_pattern_best: "pattern_best (pattern_extraction rt ctx qt opts)"
  unfolding pattern_extraction_def
  by (rule pattern_loop_pattern_best) (simp_all add: pattern_best_def)

lemma infer_from_context_issues:
  "infer_from_context rt qt opts ctx = Some a \<Longrightarrow> cand_issues a = [''context_inference'']"
  by (auto simp: infer_from_context_def split: if_splits list.splits)

lemma infer_from_keywords_issues:
  "infer_from_keywords rt qt opts ctx = Some a \<Longrightarrow> cand_issues a = [''keyword_inference'']"
  by (auto simp: infer_from_keywords_def split: if_splits list.splits)

lemma inference_not_pattern:
  "''context_inference'' \<notin> set aggressive_patterns" "''keyword_inference'' \<notin> set aggressive_patterns"
  by (simp_all add: aggressive_patterns_def letter_patterns_def)


lemma context_inference_cases:
  assumes "context_inference rt qt opts ctx (b, s, c) = (b', s', c')"
  shows "c' = (if best_answer b = None \<or> best_confidence b < 4 / 10
               then c @ [''infer_from_context''] else c)"
    and "b' = b \<or>
         ((best_answer b = None \<or> best_confidence b < 4 / 10) \<and> best_confidence b < 35 / 100
          \<and> best_confidence b' = 35 / 100 \<and> best_method b' = Some ''context_inference''
          \<and> (\<exists>a. best_answer b' = Some a \<and> cand_issues a = [''context_inference'']))"
  using assms infer_from_context_issues[of rt qt opts ctx]
  by (auto simp: context_inference_def split: if_splits option.splits)

lemma keyword_inference_cases:
  assumes "keyword_inference rt qt opts ctx (b, s, c) = (b', s', c')"
  shows "c' = (if best_answer b = None \<or> best_confidence b < 3 / 10
               then c @ [''infer_from_keywords''] else c)"
    and "b' = b \<or>
         ((best_answer b = None \<or> best_confidence b < 3 / 10) \<and> best_confidence b < 25 / 100
          \<and> best_confidence b' = 25 / 100 \<and> best_method b' = Some ''keyword_inference''
          \<and> (\<exists>a. best_answer b' = Some a \<and> cand_issues a = [''keyword_inference'']))"
  using assms infer_from_keywords_issues[of rt qt opts ctx]
  by (auto simp: keyword_inference_def split: if_splits option.splits)

lemma extract_result:
  assumes "extract_answer_aggressively rt stats qd pdf = (result, stats', calls)"
    and "find_question_context rt (qd_question_number qd) pdf = ctx"
    and "ctx \<noteq> []"
    and "run_methods rt stats (qd_question_text qd) (qd_options qd) ctx = (b, s, c)"
  shows "calls = c"
    and "result = Some r \<Longrightarrow>
           \<exists>a. best_answer b = Some a \<and> 2 / 10 \<le> best_confidence b
              \<and> aggressive_extract_answer_letters (raw_text a) \<noteq> []
              \<and> r = answer_record rt qd a (best_confidence b) (best_method b)
                     (aggressive_extract_answer_letters (raw_text a))"
    and "result = None \<Longrightarrow>
           (case best_answer b of None \<Rightarrow> True
            | Some a \<Rightarrow> best_confidence b < 2 / 10
                        \<or> aggressive_extract_answer_letters (raw_text a) = [])"
  using assms
  by (auto simp: extract_answer_aggressively_def Let_def split: if_splits option.splits)

lemma extract_no_context:
  "find_question_context rt (qd_question_number qd) pdf = [] \<Longrightarrow>
   extract_answer_aggressively rt stats qd pdf = (None, stats, [])"
  by (simp add: extract_answer_aggressively_def)

lemma answer_record_fields:
  "ag_requires_manual_review (answer_record rt qd a c m ls) = True"
  "ag_mapping_issues (answer_record rt qd a c m ls) = cand_issues a"
  "ag_extraction_method (answer_record rt qd a c m ls) = m"
  "ag_raw_answer_text (answer_record rt qd a c m ls) = raw_text a"
  "ag_parsing_confidence (answer_record rt qd a c m ls) = c"
  by (simp_all add: answer_record_def)

lemma run_methods_winner:
  assumes rm: "run_methods rt stats qt opts ctx = (b, s, c)"
  defines "P \<equiv> pattern_extraction rt ctx qt opts"
  shows "b = P
       \<or> (best_confidence P < 35 / 100 \<and> best_confidence b = 35 / 100
           \<and> best_method b = Some ''context_inference''
           \<and> (\<exists>a. best_answer b = Some a \<and> cand_issues a = [''context_inference'']))
       \<or> (best_confidence P < 25 / 100 \<and> best_confidence b = 25 / 100
           \<and> best_method b = Some ''keyword_inference''
           \<and> (\<exists>a. best_answer b = Some a \<and> cand_issues a = [''keyword_inference'']))"
proof -
  obtain B1 s1 c1 where
    ci: "context_inference rt qt opts ctx (P, stats, [''aggressive_patterns'']) = (B1, s1, c1)"
    by (cases "context_inference rt qt opts ctx (P, stats, [''aggressive_patterns''])") auto
  have ki: "keyword_inference rt qt opts ctx (B1, s1, c1) = (b, s, c)"
    using rm ci by (simp add: run_methods_def P_def)
  from context_inference_cases(2)[OF ci] keyword_inference_cases(2)[OF ki]
  show ?thesis by auto
qed


lemma standalone_bonus: "map_of method_bonus ''standalone_action'' = Some (2 / 10)"
  by (simp add: method_bonus_def)

lemma standalone_confidence:
  assumes "\<exists>keyword\<in>set (iter_aws_keywords rt). py_in (lower keyword) (lower (clean_text a))"
  shows "1 / 4 \<le> calculate_aggressive_confidence rt a ctx ''standalone_action'' qt opts"
proof -
  let ?k = "length (filter (\<lambda>keyword. py_in (lower keyword) (lower (clean_text a))) (iter_aws_keywords rt))"
  have "0 < ?k" using assms by (simp add: filter_empty_conv)
  then have "1 \<le> real ?k" by linarith
  then have x: "5 / 100 \<le> min (real ?k * (5 / 100)) (15 / 100)" by simp
  have y: "0 \<le> min (real j * (3 / 100)) (1 / 10)" for j by simp
  have z: "0 \<le> min (real j * (2 / 100)) (1 / 10)" for j by simp
  show ?thesis
    unfolding calculate_aggressive_confidence_def Let_def standalone_bonus option.case
    using x y[of "length (filter (\<lambda>word. py_in word (lower (clean_text a))) (iter_action_keywords rt))"]
      z[of "word_overlap (lower qt) (lower (clean_text a))"]
    by (simp only: max_def split: if_splits) (auto simp: min_def)
qed

text \<open>
  Claim C6. The call list of a run starts with the patterns. \<open>infer_from_context\<close> is
  run exactly when a context was found and the patterns left no candidate or a best
  confidence below \<open>0.4\<close>; \<open>infer_from_keywords\<close> is run exactly when a context was found
  and the best candidate so far is absent or has a confidence below \<open>0.3\<close> (so the
  patterns left none, or one below \<open>0.3\<close>). A returned record is the best candidate of
  the patterns, unless an inference replaced it: then the confidence of that
  candidate was below the fixed confidence of the inference, \<open>0.35\<close> or \<open>0.25\<close>.
\<close>

theorem C6_escalation:
  "case extract_answer_aggressively rt stats qd pdf_content of (result, stats', calls) \<Rightarrow>
     (let question_context = find_question_context rt (qd_question_number qd) pdf_content;
          P = pattern_extraction rt question_context (qd_question_text qd) (qd_options qd);
          B1 = fst (context_inference rt (qd_question_text qd) (qd_options qd) question_context
                      (P, stats, [''aggressive_patterns'']))
      in (question_context \<noteq> [] \<longrightarrow>
            calls = ''aggressive_patterns''
                      # filter (\<lambda>c. c \<in> set calls) [''infer_from_context'', ''infer_from_keywords''])
       \<and> ((''infer_from_context'' \<in> set calls)
            = (question_context \<noteq> [] \<and> (best_answer P = None \<or> best_confidence P < 4 / 10)))
       \<and> ((''infer_from_keywords'' \<in> set calls)
            = (question_context \<noteq> [] \<and> (best_answer B1 = None \<or> best_confidence B1 < 3 / 10)))
       \<and> (''infer_from_keywords'' \<in> set calls \<longrightarrow> best_answer P = None \<or> best_confidence P < 3 / 10)
       \<and> (\<forall>r. result = Some r \<longrightarrow>
             (\<exists>a. best_answer P = Some a \<and> ag_raw_answer_text r = raw_text a
                  \<and> ag_extraction_method r = best_method P
                  \<and> ag_parsing_confidence r = best_confidence P)
           \<or> (best_confidence P < ag_parsing_confidence r
               \<and> ((ag_extraction_method r = Some ''context_inference''
                     \<and> ag_parsing_confidence r = 35 / 100 \<and> ''infer_from_context'' \<in> set calls)
                  \<or> (ag_extraction_method r = Some ''keyword_inference''
                     \<and> ag_parsing_confidence r = 25 / 100 \<and> ''infer_from_keywords'' \<in> set calls)))))"
proof -
  let ?qt = "qd_question_text qd" and ?opts = "qd_options qd"
  let ?ctx = "find_question_context rt (qd_question_number qd) pdf_content"
  let ?P = "pattern_extraction rt ?ctx ?qt ?opts"
  obtain result stats' calls where
    e: "extract_answer_aggressively rt stats qd pdf_content = (result, stats', calls)"
    by (cases "extract_answer_aggressively rt stats qd pdf_content") auto
  obtain B1 s1 c1 where
    ci: "context_inference rt ?qt ?opts ?ctx (?P, stats, [''aggressive_patterns'']) = (B1, s1, c1)"
    by (cases "context_inference rt ?qt ?opts ?ctx (?P, stats, [''aggressive_patterns''])") auto
  obtain B2 s2 c2 where
    ki: "keyword_inference rt ?qt ?opts ?ctx (B1, s1, c1) = (B2, s2, c2)"
    by (cases "keyword_inference rt ?qt ?opts ?ctx (B1, s1, c1)") auto
  have rm: "run_methods rt stats ?qt ?opts ?ctx = (B2, s2, c2)"
    by (simp add: run_methods_def ci ki)
  note c1 = context_inference_cases[OF ci]
  note c2 = keyword_inference_cases[OF ki]
  show ?thesis
  proof (cases "?ctx = []")
    case True
    from extract_no_context[OF True, of stats] e have "result = None" "calls = []" by simp_all
    then show ?thesis using True by (simp add: e Let_def)
  next
    case False
    have calls: "calls = c2" by (rule extract_result(1)[OF e refl False rm])
    have calls_eq: "calls = ''aggressive_patterns''
             # (if best_answer ?P = None \<or> best_confidence ?P < 4 / 10 then [''infer_from_context''] else [])
             @ (if best_answer B1 = None \<or> best_confidence B1 < 3 / 10 then [''infer_from_keywords''] else [])"
      unfolding calls c2(1) c1(1) by simp
    have mono: "best_answer B1 = None \<or> best_confidence B1 < 3 / 10
                 \<Longrightarrow> best_answer ?P = None \<or> best_confidence ?P < 3 / 10"
      using c1(2) by auto
    have a1: "calls = ''aggressive_patterns''
                # filter (\<lambda>c. c \<in> set calls) [''infer_from_context'', ''infer_from_keywords'']"
      by (subst (2) calls_eq, subst calls_eq) simp
    have a2: "(''infer_from_context'' \<in> set calls)
            = (best_answer ?P = None \<or> best_confidence ?P < 4 / 10)"
      by (subst calls_eq) simp
    have a3: "(''infer_from_keywords'' \<in> set calls)
            = (best_answer B1 = None \<or> best_confidence B1 < 3 / 10)"
      by (subst calls_eq) simp
    have a5: "\<forall>r. result = Some r \<longrightarrow>
             (\<exists>a. best_answer ?P = Some a \<and> ag_raw_answer_text r = raw_text a
                  \<and> ag_extraction_method r = best_method ?P
                  \<and> ag_parsing_confidence r = best_confidence ?P)
           \<or> (best_confidence ?P < ag_parsing_confidence r
               \<and> ((ag_extraction_method r = Some ''context_inference''
                     \<and> ag_parsing_confidence r = 35 / 100 \<and> ''infer_from_context'' \<in> set calls)
                  \<or> (ag_extraction_method r = Some ''keyword_inference''
                     \<and> ag_parsing_confidence r = 25 / 100 \<and> ''infer_from_keywords'' \<in> set calls)))"
    proof (intro allI impI)
      fix r assume r: "result = Some r"
      from extract_result(2)[OF e refl False rm r] obtain a where
        a: "best_answer B2 = Some a"
        and rr: "r = answer_record rt qd a (best_confidence B2) (best_method B2)
                     (aggressive_extract_answer_letters (raw_text a))"
        by blast
      have f: "ag_raw_answer_text r = raw_text a" "ag_extraction_method r = best_method B2"
        "ag_parsing_confidence r = best_confidence B2"
        unfolding rr by (simp_all add: answer_record_def)
      consider (same) "B2 = ?P" | (ctx) "B2 = B1" "B1 \<noteq> ?P" | (kw) "B2 \<noteq> B1"
        by blast
      then show "(\<exists>a. best_answer ?P = Some a \<and> ag_raw_answer_text r = raw_text a
                  \<and> ag_extraction_method r = best_method ?P
                  \<and> ag_parsing_confidence r = best_confidence ?P)
           \<or> (best_confidence ?P < ag_parsing_confidence r
               \<and> ((ag_extraction_method r = Some ''context_inference''
                     \<and> ag_parsing_confidence r = 35 / 100 \<and> ''infer_from_context'' \<in> set calls)
                  \<or> (ag_extraction_method r = Some ''keyword_inference''
                     \<and> ag_parsing_confidence r = 25 / 100 \<and> ''infer_from_keywords'' \<in> set calls)))"
      proof cases
        case same
        then show ?thesis using a f by simp
      next
        case ctx
        then show ?thesis using c1(2) f a2 by auto
      next
        case kw
        then have k: "(best_answer B1 = None \<or> best_confidence B1 < 3 / 10)"
          "best_confidence B1 < 25 / 100" "best_confidence B2 = 25 / 100"
          "best_method B2 = Some ''keyword_inference''"
          using c2(2) by auto
        have "best_confidence ?P \<le> best_confidence B1" using c1(2) by auto
        then show ?thesis using k f a3 by auto
      qed
    qed
    show ?thesis
      unfolding e Let_def prod.case ci fst_conv
      using False a1 a2 a3 a5 mono by blast
  qed
qed

lemma example_options_run:
  "extract_answer_aggressively example_runtime example_stats example_question_with_options
     example_options =
   (Some
     \<lparr>ag_question_id = ''q7'', ag_question_number = 7,
      ag_raw_answer_text = ''A. Use S3 bucket'',
      ag_extraction_method = Some ''context_inference'',
      ag_correct_answers = [0], ag_validation_confidence = 7 / 20,
      ag_mapping_issues = [''context_inference''],
      ag_mapping_method = ''aggressive_extraction'',
      ag_explanation = ''Inferred from context analysis (score: 4)'',
      ag_keywords = [''S3'', ''Use''], ag_requires_manual_review = True,
      ag_aggressive_extraction = True, ag_parsing_confidence = 7 / 20\<rparr>,
    \<lparr>pattern_usage = [(''context_inference'', 1)], inference_types = [(''context'', 1)]\<rparr>,
    [''aggressive_patterns'', ''infer_from_context''])"
  by code_simp

theorem C6_escalation_witness:
  "fst (extract_answer_aggressively example_runtime example_stats example_question_with_options
          example_options) \<noteq> None
   \<and> snd (snd (extract_answer_aggressively example_runtime example_stats
                  example_question_with_options example_options))
       = [''aggressive_patterns'', ''infer_from_context'']
   \<and> (case extract_answer_aggressively example_runtime example_stats example_question_with_options example_options of (result, stats', calls) \<Rightarrow>
     (let question_context = find_question_context example_runtime (qd_question_number example_question_with_options) example_options;
          P = pattern_extraction example_runtime question_context (qd_question_text example_question_with_options) (qd_options example_question_with_options);
          B1 = fst (context_inference example_runtime (qd_question_text example_question_with_options) (qd_options example_question_with_options) question_context
                      (P, example_stats, [''aggressive_patterns'']))
      in (question_context \<noteq> [] \<longrightarrow>
            calls = ''aggressive_patterns''
                      # filter (\<lambda>c. c \<in> set calls) [''infer_from_context'', ''infer_from_keywords''])
       \<and> ((''infer_from_context'' \<in> set calls)
            = (question_context \<noteq> [] \<and> (best_answer P = None \<or> best_confidence P < 4 / 10)))
       \<and> ((''infer_from_keywords'' \<in> set calls)
            = (question_context \<noteq> [] \<and> (best_answer B1 = None \<or> best_confidence B1 < 3 / 10)))
       \<and> (''infer_from_keywords'' \<in> set calls \<longrightarrow> best_answer P = None \<or> best_confidence P < 3 / 10)
       \<and> (\<forall>r. result = Some r \<longrightarrow>
             (\<exists>a. best_answer P = Some a \<and> ag_raw_answer_text r = raw_text a
                  \<and> ag_extraction_method r = best_method P
                  \<and> ag_parsing_confidence r = best_confidence P)
           \<or> (best_confidence P < ag_parsing_confidence r
               \<and> ((ag_extraction_method r = Some ''context_inference''
                     \<and> ag_parsing_confidence r = 35 / 100 \<and> ''infer_from_context'' \<in> set calls)
                  \<or> (ag_extraction_method r = Some ''keyword_inference''
                     \<and> ag_parsing_confidence r = 25 / 100 \<and> ''infer_from_keywords'' \<in> set calls))))))"
  using C6_escalation[where rt = example_runtime and stats = example_stats
      and qd = example_question_with_options and pdf_content = example_options]
  by (simp add: example_options_run)

text \<open>
  A candidate of \<open>standalone_action\<close> whose cleaned text names an AWS service has a
  confidence of at least \<open>0.25\<close>: \<open>standalone_confidence\<close> above. Every returned record is
  flagged for manual review and a letter can be extracted from its raw text; its issue
  list names the method when the method is an inference and is empty when the method is
  one of the patterns. When the best candidate of the patterns is a \<open>standalone_action\<close>
  candidate of confidence at least \<open>0.25\<close>, nothing is returned exactly when no letter
  can be extracted from the raw text of the winning candidate.
\<close>

lemma standalone_action_outcome:
  "case extract_answer_aggressively rt stats qd pdf_content of (result, stats', calls) \<Rightarrow>
     (let question_context = find_question_context rt (qd_question_number qd) pdf_content;
          P = pattern_extraction rt question_context (qd_question_text qd) (qd_options qd)
      in (\<forall>r. result = Some r \<longrightarrow>
            ag_requires_manual_review r = True
            \<and> aggressive_extract_answer_letters (ag_raw_answer_text r) \<noteq> []
            \<and> ((\<exists>m\<in>set aggressive_patterns. ag_extraction_method r = Some m \<and> ag_mapping_issues r = [])
               \<or> (ag_extraction_method r = Some ''context_inference''
                   \<and> ag_mapping_issues r = [''context_inference''])
               \<or> (ag_extraction_method r = Some ''keyword_inference''
                   \<and> ag_mapping_issues r = [''keyword_inference''])))
       \<and> (question_context \<noteq> [] \<and> best_method P = Some ''standalone_action''
            \<and> 1 / 4 \<le> best_confidence P \<longrightarrow>
            (\<forall>r. result = Some r \<longrightarrow>
               (ag_extraction_method r = Some ''standalone_action'' \<and> ag_mapping_issues r = []
                  \<and> ag_parsing_confidence r = best_confidence P)
             \<or> (ag_extraction_method r = Some ''context_inference''
                  \<and> ag_mapping_issues r = [''context_inference'']
                  \<and> ag_parsing_confidence r = 35 / 100))
          \<and> (\<exists>a. best_answer (fst (run_methods rt stats (qd_question_text qd) (qd_options qd)
                                     question_context)) = Some a
                 \<and> (result = None) = (aggressive_extract_answer_letters (raw_text a) = []))))"
proof -
  let ?qt = "qd_question_text qd" and ?opts = "qd_options qd"
  let ?ctx = "find_question_context rt (qd_question_number qd) pdf_content"
  let ?P = "pattern_extraction rt ?ctx ?qt ?opts"
  obtain result stats' calls where
    e: "extract_answer_aggressively rt stats qd pdf_content = (result, stats', calls)"
    by (cases "extract_answer_aggressively rt stats qd pdf_content") auto
  obtain b s c where rm: "run_methods rt stats ?qt ?opts ?ctx = (b, s, c)"
    by (cases "run_methods rt stats ?qt ?opts ?ctx") auto
  note w = run_methods_winner[OF rm]
  note pb = pattern_extraction_pattern_best[of rt ?ctx ?qt ?opts]
  show ?thesis
  proof (cases "?ctx = []")
    case True
    from extract_no_context[OF True, of stats] e have "result = None" by simp
    then show ?thesis using True by (simp add: e Let_def)
  next
    case False
    note res = extract_result(2)[OF e refl False rm]
    note non = extract_result(3)[OF e refl False rm]
    have g1: "\<forall>r. result = Some r \<longrightarrow>
            ag_requires_manual_review r = True
            \<and> aggressive_extract_answer_letters (ag_raw_answer_text r) \<noteq> []
            \<and> ((\<exists>m\<in>set aggressive_patterns. ag_extraction_method r = Some m \<and> ag_mapping_issues r = [])
               \<or> (ag_extraction_method r = Some ''context_inference''
                   \<and> ag_mapping_issues r = [''context_inference''])
               \<or> (ag_extraction_method r = Some ''keyword_inference''
                   \<and> ag_mapping_issues r = [''keyword_inference'']))"
    proof (intro allI impI)
      fix r assume "result = Some r"
      from res[OF this] obtain a where
        a: "best_answer b = Some a" "aggressive_extract_answer_letters (raw_text a) \<noteq> []"
        and rr: "r = answer_record rt qd a (best_confidence b) (best_method b)
                     (aggressive_extract_answer_letters (raw_text a))"
        by blast
      have pat: "b = ?P \<Longrightarrow> \<exists>m\<in>set aggressive_patterns. best_method b = Some m \<and> cand_issues a = []"
        using pb a(1) by (auto simp: pattern_best_def)
      show "ag_requires_manual_review r = True
            \<and> aggressive_extract_answer_letters (ag_raw_answer_text r) \<noteq> []
            \<and> ((\<exists>m\<in>set aggressive_patterns. ag_extraction_method r = Some m \<and> ag_mapping_issues r = [])
               \<or> (ag_extraction_method r = Some ''context_inference''
                   \<and> ag_mapping_issues r = [''context_inference''])
               \<or> (ag_extraction_method r = Some ''keyword_inference''
                   \<and> ag_mapping_issues r = [''keyword_inference'']))"
        unfolding rr answer_record_fields using w a pat by auto
    qed
    have g2: "best_method ?P = Some ''standalone_action'' \<and> 1 / 4 \<le> best_confidence ?P \<longrightarrow>
            (\<forall>r. result = Some r \<longrightarrow>
               (ag_extraction_method r = Some ''standalone_action'' \<and> ag_mapping_issues r = []
                  \<and> ag_parsing_confidence r = best_confidence ?P)
             \<or> (ag_extraction_method r = Some ''context_inference''
                  \<and> ag_mapping_issues r = [''context_inference'']
                  \<and> ag_parsing_confidence r = 35 / 100))
          \<and> (\<exists>a. best_answer b = Some a
                 \<and> (result = None) = (aggressive_extract_answer_letters (raw_text a) = []))"
    proof (intro impI conjI allI)
      assume h: "best_method ?P = Some ''standalone_action'' \<and> 1 / 4 \<le> best_confidence ?P"
      then have nokw: "\<not> best_confidence ?P < 25 / 100" by simp
      from h pb obtain pa where pa: "best_answer ?P = Some pa" "cand_issues pa = []"
        by (auto simp: pattern_best_def)
      have conf: "2 / 10 \<le> best_confidence b" using w h by auto
      from w nokw pa obtain a where a: "best_answer b = Some a" by auto
      have "(result = None) = (aggressive_extract_answer_letters (raw_text a) = [])"
      proof
        assume "result = None"
        from non[OF this] a conf show "aggressive_extract_answer_letters (raw_text a) = []" by simp
      next
        assume l: "aggressive_extract_answer_letters (raw_text a) = []"
        show "result = None"
        proof (cases result)
          case None then show ?thesis .
        next
          case (Some r)
          from res[OF this] a l show ?thesis by auto
        qed
      qed
      then show "\<exists>a. best_answer b = Some a
                 \<and> (result = None) = (aggressive_extract_answer_letters (raw_text a) = [])"
        using a by blast
      fix r assume "result = Some r"
      from res[OF this] obtain a' where
        a': "best_answer b = Some a'"
        and rr: "r = answer_record rt qd a' (best_confidence b) (best_method b)
                     (aggressive_extract_answer_letters (raw_text a'))"
        by blast
      show "(ag_extraction_method r = Some ''standalone_action'' \<and> ag_mapping_issues r = []
                  \<and> ag_parsing_confidence r = best_confidence ?P)
             \<or> (ag_extraction_method r = Some ''context_inference''
                  \<and> ag_mapping_issues r = [''context_inference'']
                  \<and> ag_parsing_confidence r = 35 / 100)"
        unfolding rr answer_record_fields using w nokw h pa a' by auto
    qed
    show ?thesis
      unfolding e Let_def prod.case rm fst_conv
      using False g1 g2 by blast
  qed
qed

text \<open>
  On the sentence \<open>Create an S3 Transfer Acceleration endpoint.\<close> a record is returned:
  the pattern for several letters finds \<open>e a\<close> in \<open>Create an\<close>, so the record holds the
  indices of \<open>A\<close> and \<open>E\<close>. Its issue list is empty.
\<close>

lemma example_action_run:
  "extract_answer_aggressively example_runtime example_stats example_question example_action =
   (Some
     \<lparr>ag_question_id = ''q7'', ag_question_number = 7,
      ag_raw_answer_text = ''Create an S3 Transfer Acceleration endpoint.'',
      ag_extraction_method = Some ''standalone_action'',
      ag_correct_answers = [0, 4], ag_validation_confidence = 13 / 20,
      ag_mapping_issues = [], ag_mapping_method = ''aggressive_extraction'',
      ag_explanation = ''reate an S3 Transfer Acceleration endpoint.'',
      ag_keywords = [''S3'', ''Create''], ag_requires_manual_review = True,
      ag_aggressive_extraction = True, ag_parsing_confidence = 13 / 20\<rparr>,
    \<lparr>pattern_usage = [(''standalone_action'', 1)], inference_types = []\<rparr>,
    [''aggressive_patterns''])"
  by code_simp

text \<open>
  Claim C8. On a segment whose only match is the action-led sentence
  \<open>Configure your S3.\<close>, found by \<open>standalone_action\<close> with confidence \<open>0.55\<close>, the run
  returns no record: the candidate wins, no inference is tried, and the candidate is
  dropped because no answer letter is found in its raw text, which has no letter
  prefix.
\<close>

theorem C8_standalone_candidate_dropped:
  "find_question_context example_runtime (qd_question_number example_question) example_configure
     = ''7. Configure your S3.''
   \<and> pattern_extraction example_runtime ''7. Configure your S3.''
         (qd_question_text example_question) (qd_options example_question)
       = \<lparr>best_answer =
            Some \<lparr>raw_text = ''Configure your S3.'', clean_text = ''onfigure your S3.'',
                  cand_explanation = ''onfigure your S3.'', cand_issues = []\<rparr>,
          best_confidence = 11 / 20, best_method = Some ''standalone_action''\<rparr>
   \<and> aggressive_extract_answer_letters ''Configure your S3.'' = []
   \<and> extract_answer_aggressively example_runtime example_stats example_question
         example_configure
       = (None,
          \<lparr>pattern_usage = [(''standalone_action'', 1)], inference_types = []\<rparr>,
          [''aggressive_patterns''])"
proof -
  have "find_question_context example_runtime (qd_question_number example_question)
          example_configure = ''7. Configure your S3.''"
    by code_simp
  moreover have "pattern_extraction example_runtime ''7. Configure your S3.''
         (qd_question_text example_question) (qd_options example_question)
       = \<lparr>best_answer =
            Some \<lparr>raw_text = ''Configure your S3.'', clean_text = ''onfigure your S3.'',
                  cand_explanation = ''onfigure your S3.'', cand_issues = []\<rparr>,
          best_confidence = 11 / 20, best_method = Some ''standalone_action''\<rparr>"
    by code_simp
  moreover have "aggressive_extract_answer_letters ''Configure your S3.'' = []"
    by code_simp
  moreover have "extract_answer_aggressively example_runtime example_stats example_question
         example_configure
       = (None,
          \<lparr>pattern_usage = [(''standalone_action'', 1)], inference_types = []\<rparr>,
          [''aggressive_patterns''])"
    by code_simp
  ultimately show ?thesis by blast
qed

text \<open>
  Claim C9. The list \<open>keywords\<close> of a record of the aggressive recoverer follows the
  order in which the run iterates over the set \<open>aws_keywords\<close>. Two runs on the same
  document that iterate over the same set in two orders return different lists.
\<close>

theorem C9_keywords_follow_set_order:
  "set (iter_aws_keywords example_runtime) = set (iter_aws_keywords example_runtime_other_order)
   \<and> map_option ag_keywords
        (fst (extract_answer_aggressively example_runtime example_stats example_question
                example_two_services))
       = Some [''S3'', ''EC2'', ''Create'']
   \<and> map_option ag_keywords
        (fst (extract_answer_aggressively example_runtime_other_order example_stats
                example_question example_two_services))
       = Some [''EC2'', ''S3'', ''Create'']"
proof -
  have "set (iter_aws_keywords example_runtime) = set (iter_aws_keywords example_runtime_other_order)"
    by (simp add: example_runtime_def example_runtime_other_order_def)
  moreover have "map_option ag_keywords
        (fst (extract_answer_aggressively example_runtime example_stats example_question
                example_two_services))
       = Some [''S3'', ''EC2'', ''Create'']"
    by code_simp
  moreover have "map_option ag_keywords
        (fst (extract_answer_aggressively example_runtime_other_order example_stats
                example_question example_two_services))
       = Some [''EC2'', ''S3'', ''Create'']"
    by code_simp
  ultimately show ?thesis by blast
qed

text \<open>
  The output of \<open>AnswerParser.parse_answers\<close> itself depends on the clock through the
  field \<open>parsing_date\<close> of its metadata only.
\<close>

lemma parse_answers_timestamp_only:
  "map_sum id (\<lambda>out. out\<lparr>metadata := (metadata out)\<lparr>parsing_date := d\<rparr>\<rparr>)
     (parse_answers (clock\<lparr>now_isoformat := t1\<rparr>) parse_segment stats text_path file)
   = map_sum id (\<lambda>out. out\<lparr>metadata := (metadata out)\<lparr>parsing_date := d\<rparr>\<rparr>)
       (parse_answers (clock\<lparr>now_isoformat := t2\<rparr>) parse_segment stats text_path file)"
  by (cases "file")
    (simp_all add: parse_answers_def create_output_def Let_def split: prod.splits option.splits)

end
